theory Spec2Isabelle
  imports Main "HOL-Library.Word" "HOL-Library.Monad_Syntax" "HOL-Library.Code_Target_Numeral"
begin

unbundle bit_operations_syntax

section \<open>The machine: bytes, words and the address provider\<close>

text \<open>
  Pointers (\<^verbatim>\<open>char *\<close>, \<^verbatim>\<open>void *\<close>) and \<^verbatim>\<open>size_t\<close> are 64-bit words, an
  \<^verbatim>\<open>unsigned int\<close> is a 32-bit word, memory is an array of bytes read and written
  little-endian. A function of the allocator returns \<open>None\<close> when the C function does not
  return: it touched a byte outside the region the address provider has handed out
  (a null or wild pointer), or its loop never ends.
\<close>

type_synonym addr = "64 word"
type_synonym size_t = "64 word"
type_synonym uint = "32 word"

record machine =
  mem :: "addr \<Rightarrow> 8 word"
  mem_lo :: addr
  mem_hi :: addr
  mem_max :: addr

definition mapped :: "'a machine_scheme \<Rightarrow> addr \<Rightarrow> nat \<Rightarrow> bool" where
  "mapped st p n = (unat (mem_lo st) \<le> unat p \<and> unat p + n \<le> unat (mem_hi st))"

definition load32 :: "(addr \<Rightarrow> 8 word) \<Rightarrow> addr \<Rightarrow> uint" where
  "load32 m p = ucast (m p) OR push_bit 8 (ucast (m (p + 1)))
                OR push_bit 16 (ucast (m (p + 2))) OR push_bit 24 (ucast (m (p + 3)))"

definition store32 :: "(addr \<Rightarrow> 8 word) \<Rightarrow> addr \<Rightarrow> uint \<Rightarrow> (addr \<Rightarrow> 8 word)" where
  "store32 m p v = m(p := ucast v, p + 1 := ucast (drop_bit 8 v),
                     p + 2 := ucast (drop_bit 16 v), p + 3 := ucast (drop_bit 24 v))"

text \<open>\<^verbatim>\<open>#define READ(p) (*(unsigned int *)(p))\<close> and
  \<^verbatim>\<open>#define WRITE(p, val) (*(unsigned int *)(p) = (val))\<close>.\<close>

definition READ :: "'a machine_scheme \<Rightarrow> addr \<Rightarrow> uint option" where
  "READ st p = (if mapped st p 4 then Some (load32 (mem st) p) else None)"

definition WRITE :: "addr \<Rightarrow> uint \<Rightarrow> 'a machine_scheme \<Rightarrow> 'a machine_scheme option" where
  "WRITE p v st = (if mapped st p 4 then Some (st\<lparr>mem := store32 (mem st) p v\<rparr>) else None)"

text \<open>\<^verbatim>\<open>memcpy\<close> and \<^verbatim>\<open>memset\<close> of the C library, on mapped bytes; the two ranges of a
  \<^verbatim>\<open>memcpy\<close> must not overlap.\<close>

definition memcpy :: "addr \<Rightarrow> addr \<Rightarrow> size_t \<Rightarrow> 'a machine_scheme \<Rightarrow> 'a machine_scheme option" where
  "memcpy dst src n st =
     (if n = 0 then Some st
      else if mapped st dst (unat n) \<and> mapped st src (unat n)
              \<and> (unat dst + unat n \<le> unat src \<or> unat src + unat n \<le> unat dst)
      then Some (st\<lparr>mem := (\<lambda>a. if a - dst < n then mem st (src + (a - dst)) else mem st a)\<rparr>)
      else None)"

definition memset :: "addr \<Rightarrow> 8 word \<Rightarrow> size_t \<Rightarrow> 'a machine_scheme \<Rightarrow> 'a machine_scheme option" where
  "memset p c n st =
     (if n = 0 then Some st
      else if mapped st p (unat n)
      then Some (st\<lparr>mem := (\<lambda>a. if a - p < n then c else mem st a)\<rparr>)
      else None)"

text \<open>Modelled from the spec: the address provider \<^verbatim>\<open>mem_sbrk\<close> of \<^verbatim>\<open>memlib.h\<close>, which
  is not among the sources. \<^verbatim>\<open>extend(bytes) -> address | FAIL\<close> appends \<^verbatim>\<open>bytes\<close> to
  the heap region \<^verbatim>\<open>H[lo..hi)\<close> and returns the first byte's address; it fails when the
  address space (up to \<open>mem_max\<close>) is used up. FAIL is \<^verbatim>\<open>(void *)-1\<close>, as the callers
  test it.\<close>

definition mem_sbrk :: "size_t \<Rightarrow> 'a machine_scheme \<Rightarrow> addr \<times> 'a machine_scheme" where
  "mem_sbrk incr st =
     (if unat (mem_hi st) + unat incr \<le> unat (mem_max st)
      then (mem_hi st, st\<lparr>mem_hi := mem_hi st + incr\<rparr>)
      else (- 1, st))"

section \<open>Block layout macros (shared by the three versions)\<close>

definition WSIZE :: "64 word" where "WSIZE = 4"
definition DSIZE :: "64 word" where "DSIZE = 8"
definition ESIZE :: "64 word" where "ESIZE = 2 * DSIZE"

text \<open>\<^verbatim>\<open>#define PACK(size, alloc) ((size) | (alloc))\<close>, on \<^verbatim>\<open>size_t\<close> operands; the
  store through \<^verbatim>\<open>WRITE\<close> keeps the low 32 bits.\<close>

definition PACK :: "size_t \<Rightarrow> size_t \<Rightarrow> uint" where
  "PACK sz alloc = ucast (sz OR alloc)"

definition GET_SIZE :: "'a machine_scheme \<Rightarrow> addr \<Rightarrow> uint option" where
  "GET_SIZE st p = do { v \<leftarrow> READ st p; Some (v AND NOT 7) }"

definition GET_ALLOC :: "'a machine_scheme \<Rightarrow> addr \<Rightarrow> uint option" where
  "GET_ALLOC st p = do { v \<leftarrow> READ st p; Some (v AND 1) }"

definition GET_PREALLOC :: "'a machine_scheme \<Rightarrow> addr \<Rightarrow> uint option" where
  "GET_PREALLOC st p = do { v \<leftarrow> READ st p; Some (v AND 2) }"

definition SET_PREALLOC :: "addr \<Rightarrow> 'a machine_scheme \<Rightarrow> 'a machine_scheme option" where
  "SET_PREALLOC p st = do { v \<leftarrow> READ st p; WRITE p (v OR 2) st }"

definition RESET_PREALLOC :: "addr \<Rightarrow> 'a machine_scheme \<Rightarrow> 'a machine_scheme option" where
  "RESET_PREALLOC p st = do { v \<leftarrow> READ st p; WRITE p (v AND NOT 2) st }"

definition GET_HEADER :: "addr \<Rightarrow> addr" where
  "GET_HEADER bp = bp - WSIZE"

definition GET_FOOTER :: "'a machine_scheme \<Rightarrow> addr \<Rightarrow> addr option" where
  "GET_FOOTER st bp = do { s \<leftarrow> GET_SIZE st (GET_HEADER bp); Some (bp + ucast s - DSIZE) }"

definition PRED_FOOTER :: "addr \<Rightarrow> addr" where
  "PRED_FOOTER bp = bp - DSIZE"

definition SUCC_HEADER :: "'a machine_scheme \<Rightarrow> addr \<Rightarrow> addr option" where
  "SUCC_HEADER st bp = do { s \<leftarrow> GET_SIZE st (GET_HEADER bp); Some (bp + ucast s - WSIZE) }"

definition PRED_BLK :: "'a machine_scheme \<Rightarrow> addr \<Rightarrow> addr option" where
  "PRED_BLK st bp = do { s \<leftarrow> GET_SIZE st (PRED_FOOTER bp); Some (bp - ucast s) }"

definition SUCC_BLK :: "'a machine_scheme \<Rightarrow> addr \<Rightarrow> addr option" where
  "SUCC_BLK st bp = do { s \<leftarrow> GET_SIZE st (GET_HEADER bp); Some (bp + ucast s) }"

text \<open>The links of the free list are 32-bit offsets from \<^verbatim>\<open>heap_ptr\<close>; offset 0 is the
  null pointer.\<close>

record heap = machine +
  heap_ptr :: addr

definition PRED_FREE :: "'a heap_scheme \<Rightarrow> addr \<Rightarrow> addr option" where
  "PRED_FREE st bp = do { v \<leftarrow> READ st bp; Some (if v = 0 then 0 else ucast v + heap_ptr st) }"

definition SUCC_FREE :: "'a heap_scheme \<Rightarrow> addr \<Rightarrow> addr option" where
  "SUCC_FREE st bp =
     do { v \<leftarrow> READ st (bp + WSIZE); Some (if v = 0 then 0 else ucast v + heap_ptr st) }"

definition SET_PRED_FREE :: "addr \<Rightarrow> addr \<Rightarrow> 'a heap_scheme \<Rightarrow> 'a heap_scheme option" where
  "SET_PRED_FREE bp val st = WRITE bp (if val = 0 then 0 else ucast (val - heap_ptr st)) st"

definition SET_SUCC_FREE :: "addr \<Rightarrow> addr \<Rightarrow> 'a heap_scheme \<Rightarrow> 'a heap_scheme option" where
  "SET_SUCC_FREE bp val st =
     WRITE (bp + WSIZE) (if val = 0 then 0 else ucast (val - heap_ptr st)) st"

definition MAX_of :: "size_t \<Rightarrow> size_t \<Rightarrow> size_t" where
  "MAX_of x y = (if x < y then y else x)"

definition MIN_of :: "size_t \<Rightarrow> size_t \<Rightarrow> size_t" where
  "MIN_of x y = (if x < y then x else y)"

section \<open>mm.c: one explicit free list, no footer in allocated blocks\<close>

definition MAX_FIT :: int where "MAX_FIT = 6"
definition MAX_NFIT :: int where "MAX_NFIT = 28"

record heap_e = heap +
  heap_end :: addr

record mm = heap_e +
  free_blks :: addr

definition insert_free_block :: "addr \<Rightarrow> mm \<Rightarrow> mm option" where
  "insert_free_block ptr st =
     (if ptr = 0 then Some st
      else if free_blks st = 0 then do {
        let st = st\<lparr>free_blks := ptr\<rparr>;
        st \<leftarrow> SET_PRED_FREE ptr 0 st;
        SET_SUCC_FREE ptr 0 st }
      else do {
        st \<leftarrow> SET_SUCC_FREE ptr (free_blks st) st;
        st \<leftarrow> SET_PRED_FREE (free_blks st) ptr st;
        let st = st\<lparr>free_blks := ptr\<rparr>;
        SET_PRED_FREE ptr 0 st })"

definition delete_free_block :: "addr \<Rightarrow> mm \<Rightarrow> mm option" where
  "delete_free_block ptr st =
     (if ptr = 0 then Some st
      else do {
        succ_free \<leftarrow> SUCC_FREE st ptr;
        if free_blks st = ptr then
          (if succ_free = 0 then Some (st\<lparr>free_blks := 0\<rparr>)
           else do {
             let st = st\<lparr>free_blks := succ_free\<rparr>;
             SET_PRED_FREE (free_blks st) 0 st })
        else do {
          pred_free \<leftarrow> PRED_FREE st ptr;
          if succ_free = 0 then SET_SUCC_FREE pred_free 0 st
          else do {
            st \<leftarrow> SET_SUCC_FREE pred_free succ_free st;
            SET_PRED_FREE succ_free pred_free st } } })"

definition merge_free_blocks :: "addr \<Rightarrow> mm \<Rightarrow> (addr \<times> mm) option" where
  "merge_free_blocks ptr st = do {
     pa \<leftarrow> GET_PREALLOC st (GET_HEADER ptr);
     let pred_alloc = (ucast pa :: size_t);
     sh \<leftarrow> SUCC_HEADER st ptr;
     sa \<leftarrow> GET_ALLOC st sh;
     let succ_alloc = (ucast sa :: size_t);
     (ptr, st) \<leftarrow>
       (if pred_alloc \<noteq> 0 \<and> succ_alloc \<noteq> 0 then do {
          sb \<leftarrow> SUCC_BLK st ptr;
          st \<leftarrow> RESET_PREALLOC (GET_HEADER sb) st;
          Some (ptr, st) }
        else if pred_alloc \<noteq> 0 then do {
          sb \<leftarrow> SUCC_BLK st ptr;
          st \<leftarrow> delete_free_block sb st;
          s1 \<leftarrow> GET_SIZE st (GET_HEADER ptr);
          sh \<leftarrow> SUCC_HEADER st ptr;
          s2 \<leftarrow> GET_SIZE st sh;
          let newsize = (ucast (s1 + s2) :: size_t);
          st \<leftarrow> WRITE (GET_HEADER ptr) (PACK newsize pred_alloc) st;
          ft \<leftarrow> GET_FOOTER st ptr;
          st \<leftarrow> WRITE ft (PACK newsize 0) st;
          Some (ptr, st) }
        else if succ_alloc \<noteq> 0 then do {
          pb \<leftarrow> PRED_BLK st ptr;
          st \<leftarrow> delete_free_block pb st;
          s1 \<leftarrow> GET_SIZE st (GET_HEADER ptr);
          s2 \<leftarrow> GET_SIZE st (PRED_FOOTER ptr);
          let newsize = (ucast (s1 + s2) :: size_t);
          pb \<leftarrow> PRED_BLK st ptr;
          pa \<leftarrow> GET_PREALLOC st (GET_HEADER pb);
          let pred_alloc = (ucast pa :: size_t);
          pb \<leftarrow> PRED_BLK st ptr;
          st \<leftarrow> WRITE (GET_HEADER pb) (PACK newsize pred_alloc) st;
          ft \<leftarrow> GET_FOOTER st ptr;
          st \<leftarrow> WRITE ft (PACK newsize 0) st;
          sb \<leftarrow> SUCC_BLK st ptr;
          st \<leftarrow> RESET_PREALLOC (GET_HEADER sb) st;
          pb \<leftarrow> PRED_BLK st ptr;
          Some (pb, st) }
        else do {
          pb \<leftarrow> PRED_BLK st ptr;
          st \<leftarrow> delete_free_block pb st;
          sb \<leftarrow> SUCC_BLK st ptr;
          st \<leftarrow> delete_free_block sb st;
          s1 \<leftarrow> GET_SIZE st (GET_HEADER ptr);
          s2 \<leftarrow> GET_SIZE st (PRED_FOOTER ptr);
          sh \<leftarrow> SUCC_HEADER st ptr;
          s3 \<leftarrow> GET_SIZE st sh;
          let newsize = (ucast (s1 + s2 + s3) :: size_t);
          pb \<leftarrow> PRED_BLK st ptr;
          pa \<leftarrow> GET_PREALLOC st (GET_HEADER pb);
          let pred_alloc = (ucast pa :: size_t);
          pb \<leftarrow> PRED_BLK st ptr;
          st \<leftarrow> WRITE (GET_HEADER pb) (PACK newsize pred_alloc) st;
          sb \<leftarrow> SUCC_BLK st ptr;
          ft \<leftarrow> GET_FOOTER st sb;
          st \<leftarrow> WRITE ft (PACK newsize 0) st;
          pb \<leftarrow> PRED_BLK st ptr;
          Some (pb, st) });
     st \<leftarrow> insert_free_block ptr st;
     Some (ptr, st) }"

definition build :: "addr \<Rightarrow> size_t \<Rightarrow> mm \<Rightarrow> mm option" where
  "build ptr sz st =
     (if ptr = 0 then Some st
      else do {
        st \<leftarrow> delete_free_block ptr st;
        bs \<leftarrow> GET_SIZE st (GET_HEADER ptr);
        let blksize = (ucast bs :: size_t);
        pa \<leftarrow> GET_PREALLOC st (GET_HEADER ptr);
        let prealloc = (ucast pa :: size_t);
        if blksize - sz > ESIZE then do {
          st \<leftarrow> WRITE (GET_HEADER ptr) (PACK sz (prealloc OR 1)) st;
          ft \<leftarrow> GET_FOOTER st ptr;
          st \<leftarrow> WRITE ft (PACK sz 1) st;
          split \<leftarrow> SUCC_BLK st ptr;
          let blksize = blksize - sz;
          st \<leftarrow> WRITE (GET_HEADER split) (PACK blksize 2) st;
          ft \<leftarrow> GET_FOOTER st split;
          st \<leftarrow> WRITE ft (PACK blksize 0) st;
          (_, st) \<leftarrow> merge_free_blocks split st;
          Some st }
        else do {
          st \<leftarrow> WRITE (GET_HEADER ptr) (PACK blksize (prealloc OR 1)) st;
          ft \<leftarrow> GET_FOOTER st ptr;
          st \<leftarrow> WRITE ft (PACK blksize 1) st;
          succ \<leftarrow> SUCC_BLK st ptr;
          SET_PREALLOC (GET_HEADER succ) st } })"

definition extend_heap :: "size_t \<Rightarrow> mm \<Rightarrow> (addr \<times> mm) option" where
  "extend_heap extend_size st =
     (let extend_size = (if extend_size AND 1 \<noteq> 0 then (extend_size + 1) * WSIZE
                         else extend_size * WSIZE);
          (ptr, st) = mem_sbrk extend_size st
      in if ptr = - 1 then Some (0, st)
         else do {
           pa \<leftarrow> GET_PREALLOC st (heap_end st);
           let prealloc = (ucast pa :: size_t);
           st \<leftarrow> WRITE (GET_HEADER ptr) (PACK extend_size prealloc) st;
           ft \<leftarrow> GET_FOOTER st ptr;
           st \<leftarrow> WRITE ft (PACK extend_size 0) st;
           sb \<leftarrow> SUCC_BLK st ptr;
           let st = st\<lparr>heap_end := GET_HEADER sb\<rparr>;
           st \<leftarrow> WRITE (heap_end st) (PACK 0 1) st;
           merge_free_blocks ptr st })"

text \<open>The loop of \<^verbatim>\<open>_allocate\<close>. The counters are C \<^verbatim>\<open>int\<close>s; they stay far below
  \<open>2^31\<close> on any list of distinct blocks in a heap of less than 4 GiB, so they are
  modelled by unbounded integers. On a cyclic list without a fit the loop never ends.\<close>

partial_function (option) allocate_loop ::
  "mm \<Rightarrow> size_t \<Rightarrow> addr \<Rightarrow> addr \<Rightarrow> size_t \<Rightarrow> int \<Rightarrow> int \<Rightarrow> addr option" where
  "allocate_loop st sz ptr best_fit best_fit_size fit_cnt nfit_cnt =
     (if ptr = 0 then Some best_fit
      else do {
        ns \<leftarrow> GET_SIZE st (GET_HEADER ptr);
        let now_size = (ucast ns :: size_t);
        if now_size \<ge> sz then
          (let (best_fit, best_fit_size) =
                 (if best_fit = 0 \<or> now_size < best_fit_size then (ptr, now_size)
                  else (best_fit, best_fit_size));
               fit_cnt = fit_cnt + 1
           in if fit_cnt = MAX_FIT then Some best_fit
              else do {
                next \<leftarrow> SUCC_FREE st ptr;
                allocate_loop st sz next best_fit best_fit_size fit_cnt nfit_cnt })
        else
          (let nfit_cnt = nfit_cnt + 1
           in if nfit_cnt > MAX_NFIT \<and> fit_cnt \<noteq> 0 then Some best_fit
              else do {
                next \<leftarrow> SUCC_FREE st ptr;
                allocate_loop st sz next best_fit best_fit_size fit_cnt nfit_cnt }) })"

declare allocate_loop.simps [code]

definition allocate :: "size_t \<Rightarrow> mm \<Rightarrow> addr option" where
  "allocate sz st = allocate_loop st sz (free_blks st) 0 0 0 0"

definition mm_init :: "mm \<Rightarrow> (int \<times> mm) option" where
  "mm_init st =
     (let (p, st) = mem_sbrk (6 * WSIZE) st;
          st = st\<lparr>heap_ptr := p\<rparr>
      in if p = - 1 then Some (- 1, st)
         else do {
           st \<leftarrow> WRITE (heap_ptr st) 0 st;
           st \<leftarrow> WRITE (heap_ptr st + 1 * WSIZE) (PACK ESIZE 1) st;
           st \<leftarrow> WRITE (heap_ptr st + 2 * WSIZE) 0 st;
           st \<leftarrow> WRITE (heap_ptr st + 3 * WSIZE) 0 st;
           st \<leftarrow> WRITE (heap_ptr st + 4 * WSIZE) (PACK ESIZE 1) st;
           st \<leftarrow> WRITE (heap_ptr st + 5 * WSIZE) (PACK 0 3) st;
           let st = st\<lparr>heap_end := heap_ptr st + 5 * WSIZE\<rparr>;
           let st = st\<lparr>heap_ptr := heap_ptr st + ESIZE\<rparr>;
           let st = st\<lparr>free_blks := 0\<rparr>;
           Some (0, st) })"

definition mm_malloc :: "size_t \<Rightarrow> mm \<Rightarrow> (addr \<times> mm) option" where
  "mm_malloc sz st =
     (if sz = 0 then Some (0, st)
      else
        let sz = MAX_of ESIZE (DSIZE * ((sz + WSIZE + DSIZE - 1) div DSIZE))
        in do {
          ptr \<leftarrow> allocate sz st;
          if ptr \<noteq> 0 then do {
            st \<leftarrow> build ptr sz st;
            Some (ptr, st) }
          else do {
            (ptr, st) \<leftarrow> extend_heap (sz div WSIZE) st;
            if ptr = 0 then Some (0, st)
            else do {
              st \<leftarrow> build ptr sz st;
              Some (ptr, st) } } })"

definition mm_free :: "addr \<Rightarrow> mm \<Rightarrow> mm option" where
  "mm_free ptr st =
     (if ptr = 0 then Some st
      else do {
        s \<leftarrow> GET_SIZE st (GET_HEADER ptr);
        let sz = (ucast s :: size_t);
        pa \<leftarrow> GET_PREALLOC st (GET_HEADER ptr);
        let prealloc = (ucast pa :: size_t);
        st \<leftarrow> WRITE (GET_HEADER ptr) (PACK sz prealloc) st;
        ft \<leftarrow> GET_FOOTER st ptr;
        st \<leftarrow> WRITE ft (PACK sz 0) st;
        (_, st) \<leftarrow> merge_free_blocks ptr st;
        Some st })"

definition mm_realloc :: "addr \<Rightarrow> size_t \<Rightarrow> mm \<Rightarrow> (addr \<times> mm) option" where
  "mm_realloc oldptr sz st =
     (if sz = 0 then do { st \<leftarrow> mm_free oldptr st; Some (0, st) }
      else if oldptr = 0 then mm_malloc sz st
      else do {
        (newptr, st) \<leftarrow> mm_malloc sz st;
        os \<leftarrow> GET_SIZE st (GET_HEADER oldptr);
        let oldsize = (ucast os :: size_t);
        ns \<leftarrow> GET_SIZE st (GET_HEADER newptr);
        let newsize = (ucast ns :: size_t);
        let cpysize = MIN_of oldsize newsize;
        st \<leftarrow> memcpy newptr oldptr (cpysize - WSIZE) st;
        st \<leftarrow> mm_free oldptr st;
        Some (newptr, st) })"

definition mm_calloc :: "size_t \<Rightarrow> size_t \<Rightarrow> mm \<Rightarrow> (addr \<times> mm) option" where
  "mm_calloc nmemb sz st = do {
     let bytes = nmemb * sz;
     (newptr, st) \<leftarrow> mm_malloc bytes st;
     st \<leftarrow> memset newptr 0 bytes st;
     Some (newptr, st) }"

section \<open>The segregated version: 18 free lists, no footer in allocated blocks\<close>

definition max_level :: nat where "max_level = 17"

definition threshold :: "size_t list" where
  "threshold = [32, 48, 64, 128, 256, 512, 1024, 2048, 4096, 8192, 16384, 32768, 65536,
                131072, 262144, 524288, 1048576, 0, 0, 0]"

function get_level_from :: "nat \<Rightarrow> size_t \<Rightarrow> nat" where
  "get_level_from i sz =
     (if i < max_level then (if sz \<le> threshold ! i then i else get_level_from (i + 1) sz)
      else max_level)"
  by pat_completeness auto
termination
  by (relation "measure (\<lambda>(i, sz). max_level - i)") auto

definition get_level :: "size_t \<Rightarrow> nat" where
  "get_level sz = get_level_from 0 sz"

text \<open>\<^verbatim>\<open>static char *free_blks[20]\<close>; the index is always a level, at most 17.\<close>

record seg = heap_e +
  free_blks_seg :: "nat \<Rightarrow> addr"

definition insert_free_block_seg :: "addr \<Rightarrow> seg \<Rightarrow> seg option" where
  "insert_free_block_seg ptr st =
     (if ptr = 0 then Some st
      else do {
        s \<leftarrow> GET_SIZE st (GET_HEADER ptr);
        let level = get_level (ucast s);
        if free_blks_seg st level = 0 then do {
          let st = st\<lparr>free_blks_seg := (free_blks_seg st)(level := ptr)\<rparr>;
          st \<leftarrow> SET_PRED_FREE ptr 0 st;
          SET_SUCC_FREE ptr 0 st }
        else do {
          st \<leftarrow> SET_SUCC_FREE ptr (free_blks_seg st level) st;
          st \<leftarrow> SET_PRED_FREE (free_blks_seg st level) ptr st;
          let st = st\<lparr>free_blks_seg := (free_blks_seg st)(level := ptr)\<rparr>;
          SET_PRED_FREE ptr 0 st } })"

definition delete_free_block_seg :: "addr \<Rightarrow> seg \<Rightarrow> seg option" where
  "delete_free_block_seg ptr st =
     (if ptr = 0 then Some st
      else do {
        s \<leftarrow> GET_SIZE st (GET_HEADER ptr);
        let level = get_level (ucast s);
        succ_free \<leftarrow> SUCC_FREE st ptr;
        if free_blks_seg st level = ptr then
          (if succ_free = 0 then Some (st\<lparr>free_blks_seg := (free_blks_seg st)(level := 0)\<rparr>)
           else do {
             let st = st\<lparr>free_blks_seg := (free_blks_seg st)(level := succ_free)\<rparr>;
             SET_PRED_FREE (free_blks_seg st level) 0 st })
        else do {
          pred_free \<leftarrow> PRED_FREE st ptr;
          if succ_free = 0 then SET_SUCC_FREE pred_free 0 st
          else do {
            st \<leftarrow> SET_SUCC_FREE pred_free succ_free st;
            SET_PRED_FREE succ_free pred_free st } } })"

text \<open>\<^verbatim>\<open>if (GET_PREALLOC(h)) WRITE(h, READ(h) ^ 2)\<close> with \<^verbatim>\<open>h = GET_HEADER(SUCC_BLK(ptr))\<close>.\<close>

definition xor_prealloc_seg :: "addr \<Rightarrow> seg \<Rightarrow> seg option" where
  "xor_prealloc_seg ptr st = do {
     sb \<leftarrow> SUCC_BLK st ptr;
     pa \<leftarrow> GET_PREALLOC st (GET_HEADER sb);
     if pa \<noteq> 0 then do {
       v \<leftarrow> READ st (GET_HEADER sb);
       WRITE (GET_HEADER sb) (v XOR 2) st }
     else Some st }"

definition merge_free_blocks_seg :: "addr \<Rightarrow> seg \<Rightarrow> (addr \<times> seg) option" where
  "merge_free_blocks_seg ptr st = do {
     pa \<leftarrow> GET_PREALLOC st (GET_HEADER ptr);
     let pred_alloc = (ucast pa :: size_t);
     sh \<leftarrow> SUCC_HEADER st ptr;
     sa \<leftarrow> GET_ALLOC st sh;
     let succ_alloc = (ucast sa :: size_t);
     (ptr, st) \<leftarrow>
       (if pred_alloc \<noteq> 0 \<and> succ_alloc \<noteq> 0 then do {
          st \<leftarrow> xor_prealloc_seg ptr st;
          Some (ptr, st) }
        else if pred_alloc \<noteq> 0 then do {
          sb \<leftarrow> SUCC_BLK st ptr;
          st \<leftarrow> delete_free_block_seg sb st;
          s1 \<leftarrow> GET_SIZE st (GET_HEADER ptr);
          sh \<leftarrow> SUCC_HEADER st ptr;
          s2 \<leftarrow> GET_SIZE st sh;
          let newsize = (ucast (s1 + s2) :: size_t);
          st \<leftarrow> WRITE (GET_HEADER ptr) (PACK newsize pred_alloc) st;
          ft \<leftarrow> GET_FOOTER st ptr;
          st \<leftarrow> WRITE ft (PACK newsize 0) st;
          Some (ptr, st) }
        else if succ_alloc \<noteq> 0 then do {
          pb \<leftarrow> PRED_BLK st ptr;
          st \<leftarrow> delete_free_block_seg pb st;
          s1 \<leftarrow> GET_SIZE st (GET_HEADER ptr);
          s2 \<leftarrow> GET_SIZE st (PRED_FOOTER ptr);
          let newsize = (ucast (s1 + s2) :: size_t);
          pb \<leftarrow> PRED_BLK st ptr;
          pa \<leftarrow> GET_PREALLOC st (GET_HEADER pb);
          let pred_alloc = (ucast pa :: size_t);
          pb \<leftarrow> PRED_BLK st ptr;
          st \<leftarrow> WRITE (GET_HEADER pb) (PACK newsize pred_alloc) st;
          ft \<leftarrow> GET_FOOTER st ptr;
          st \<leftarrow> WRITE ft (PACK newsize 0) st;
          st \<leftarrow> xor_prealloc_seg ptr st;
          pb \<leftarrow> PRED_BLK st ptr;
          Some (pb, st) }
        else do {
          pb \<leftarrow> PRED_BLK st ptr;
          st \<leftarrow> delete_free_block_seg pb st;
          sb \<leftarrow> SUCC_BLK st ptr;
          st \<leftarrow> delete_free_block_seg sb st;
          s1 \<leftarrow> GET_SIZE st (GET_HEADER ptr);
          s2 \<leftarrow> GET_SIZE st (PRED_FOOTER ptr);
          sh \<leftarrow> SUCC_HEADER st ptr;
          s3 \<leftarrow> GET_SIZE st sh;
          let newsize = (ucast (s1 + s2 + s3) :: size_t);
          pb \<leftarrow> PRED_BLK st ptr;
          pa \<leftarrow> GET_PREALLOC st (GET_HEADER pb);
          let pred_alloc = (ucast pa :: size_t);
          pb \<leftarrow> PRED_BLK st ptr;
          st \<leftarrow> WRITE (GET_HEADER pb) (PACK newsize pred_alloc) st;
          sb \<leftarrow> SUCC_BLK st ptr;
          ft \<leftarrow> GET_FOOTER st sb;
          st \<leftarrow> WRITE ft (PACK newsize 0) st;
          pb \<leftarrow> PRED_BLK st ptr;
          Some (pb, st) });
     st \<leftarrow> insert_free_block_seg ptr st;
     Some (ptr, st) }"

definition build_seg :: "addr \<Rightarrow> size_t \<Rightarrow> seg \<Rightarrow> seg option" where
  "build_seg ptr sz st =
     (if ptr = 0 then Some st
      else do {
        st \<leftarrow> delete_free_block_seg ptr st;
        bs \<leftarrow> GET_SIZE st (GET_HEADER ptr);
        let blksize = (ucast bs :: size_t);
        pa \<leftarrow> GET_PREALLOC st (GET_HEADER ptr);
        let prealloc = (ucast pa :: size_t);
        if blksize - sz > ESIZE then do {
          st \<leftarrow> WRITE (GET_HEADER ptr) (PACK sz (prealloc OR 1)) st;
          ft \<leftarrow> GET_FOOTER st ptr;
          st \<leftarrow> WRITE ft (PACK sz 1) st;
          split \<leftarrow> SUCC_BLK st ptr;
          let blksize = blksize - sz;
          st \<leftarrow> WRITE (GET_HEADER split) (PACK blksize 2) st;
          ft \<leftarrow> GET_FOOTER st split;
          st \<leftarrow> WRITE ft (PACK blksize 0) st;
          (_, st) \<leftarrow> merge_free_blocks_seg split st;
          Some st }
        else do {
          st \<leftarrow> WRITE (GET_HEADER ptr) (PACK blksize (prealloc OR 1)) st;
          ft \<leftarrow> GET_FOOTER st ptr;
          st \<leftarrow> WRITE ft (PACK blksize 1) st;
          succ \<leftarrow> SUCC_BLK st ptr;
          v \<leftarrow> READ st (GET_HEADER succ);
          WRITE (GET_HEADER succ) (v OR 2) st } })"

definition extend_heap_seg :: "size_t \<Rightarrow> seg \<Rightarrow> (addr \<times> seg) option" where
  "extend_heap_seg extend_size st =
     (let extend_size = (if extend_size AND 1 \<noteq> 0 then (extend_size + 1) * WSIZE
                         else extend_size * WSIZE);
          (ptr, st) = mem_sbrk extend_size st
      in if ptr = - 1 then Some (0, st)
         else do {
           pa \<leftarrow> GET_PREALLOC st (heap_end st);
           let prealloc = (ucast pa :: size_t);
           st \<leftarrow> WRITE (GET_HEADER ptr) (PACK extend_size prealloc) st;
           ft \<leftarrow> GET_FOOTER st ptr;
           st \<leftarrow> WRITE ft (PACK extend_size 0) st;
           sb \<leftarrow> SUCC_BLK st ptr;
           let st = st\<lparr>heap_end := GET_HEADER sb\<rparr>;
           st \<leftarrow> WRITE (heap_end st) (PACK 0 1) st;
           merge_free_blocks_seg ptr st })"

text \<open>The inner loop of \<^verbatim>\<open>_allocate\<close> walks one list. It yields \<open>(True, \<dots>)\<close> when the
  function returns from inside the loop (the 42nd fit), \<open>(False, \<dots>)\<close> at the end of
  the list.\<close>

partial_function (option) allocate_list_seg ::
  "seg \<Rightarrow> size_t \<Rightarrow> addr \<Rightarrow> addr \<Rightarrow> size_t \<Rightarrow> int \<Rightarrow> (bool \<times> addr \<times> size_t \<times> int) option" where
  "allocate_list_seg st sz ptr best_fit best_fit_size fit_cnt =
     (if ptr = 0 then Some (False, best_fit, best_fit_size, fit_cnt)
      else do {
        ns \<leftarrow> GET_SIZE st (GET_HEADER ptr);
        let now_size = (ucast ns :: size_t);
        if now_size \<ge> sz then
          (let (best_fit, best_fit_size) =
                 (if best_fit = 0 \<or> now_size < best_fit_size then (ptr, now_size)
                  else (best_fit, best_fit_size));
               fit_cnt = fit_cnt + 1
           in if fit_cnt = 42 then Some (True, best_fit, best_fit_size, fit_cnt)
              else do {
                next \<leftarrow> SUCC_FREE st ptr;
                allocate_list_seg st sz next best_fit best_fit_size fit_cnt })
        else do {
          next \<leftarrow> SUCC_FREE st ptr;
          allocate_list_seg st sz next best_fit best_fit_size fit_cnt } })"

declare allocate_list_seg.simps [code]

function allocate_levels_seg ::
  "seg \<Rightarrow> size_t \<Rightarrow> nat \<Rightarrow> addr \<Rightarrow> size_t \<Rightarrow> int \<Rightarrow> addr option" where
  "allocate_levels_seg st sz i best_fit best_fit_size fit_cnt =
     (if i \<le> max_level then
        (case allocate_list_seg st sz (free_blks_seg st i) best_fit best_fit_size fit_cnt of
           None \<Rightarrow> None
         | Some (returned, best_fit, best_fit_size, fit_cnt) \<Rightarrow>
             if returned then Some best_fit
             else if best_fit \<noteq> 0 then Some best_fit
             else allocate_levels_seg st sz (i + 1) best_fit best_fit_size fit_cnt)
      else Some 0)"
  by pat_completeness auto
termination
  by (relation "measure (\<lambda>(st, sz, i, b, bs, f). max_level + 1 - i)") auto

declare allocate_levels_seg.simps [simp del]

definition allocate_seg :: "size_t \<Rightarrow> seg \<Rightarrow> addr option" where
  "allocate_seg sz st = allocate_levels_seg st sz (get_level sz) 0 0 0"

section \<open>The first version: one free list, footers in every block\<close>

definition CHUNKSIZE :: "64 word" where "CHUNKSIZE = push_bit 12 1"

record ft = heap +
  free_blks_ft :: addr

definition insert_free_block_ft :: "addr \<Rightarrow> ft \<Rightarrow> ft option" where
  "insert_free_block_ft ptr st =
     (if ptr = 0 then Some st
      else if free_blks_ft st = 0 then do {
        let st = st\<lparr>free_blks_ft := ptr\<rparr>;
        st \<leftarrow> SET_PRED_FREE ptr 0 st;
        SET_SUCC_FREE ptr 0 st }
      else do {
        st \<leftarrow> SET_SUCC_FREE ptr (free_blks_ft st) st;
        st \<leftarrow> SET_PRED_FREE (free_blks_ft st) ptr st;
        let st = st\<lparr>free_blks_ft := ptr\<rparr>;
        SET_PRED_FREE ptr 0 st })"

definition delete_free_block_ft :: "addr \<Rightarrow> ft \<Rightarrow> ft option" where
  "delete_free_block_ft ptr st =
     (if ptr = 0 then Some st
      else do {
        succ_free \<leftarrow> SUCC_FREE st ptr;
        if free_blks_ft st = ptr then
          (if succ_free = 0 then Some (st\<lparr>free_blks_ft := 0\<rparr>)
           else do {
             let st = st\<lparr>free_blks_ft := succ_free\<rparr>;
             SET_PRED_FREE (free_blks_ft st) 0 st })
        else do {
          pred_free \<leftarrow> PRED_FREE st ptr;
          if succ_free = 0 then SET_SUCC_FREE pred_free 0 st
          else do {
            st \<leftarrow> SET_SUCC_FREE pred_free succ_free st;
            SET_PRED_FREE succ_free pred_free st } } })"

definition merge_free_blocks_ft :: "addr \<Rightarrow> ft \<Rightarrow> (addr \<times> ft) option" where
  "merge_free_blocks_ft ptr st = do {
     pa \<leftarrow> GET_ALLOC st (PRED_FOOTER ptr);
     let pred_alloc = (ucast pa :: size_t);
     sh \<leftarrow> SUCC_HEADER st ptr;
     sa \<leftarrow> GET_ALLOC st sh;
     let succ_alloc = (ucast sa :: size_t);
     (ptr, st) \<leftarrow>
       (if pred_alloc \<noteq> 0 \<and> succ_alloc \<noteq> 0 then Some (ptr, st)
        else if pred_alloc \<noteq> 0 then do {
          sb \<leftarrow> SUCC_BLK st ptr;
          st \<leftarrow> delete_free_block_ft sb st;
          s1 \<leftarrow> GET_SIZE st (GET_HEADER ptr);
          sh \<leftarrow> SUCC_HEADER st ptr;
          s2 \<leftarrow> GET_SIZE st sh;
          let newsize = (ucast (s1 + s2) :: size_t);
          st \<leftarrow> WRITE (GET_HEADER ptr) (PACK newsize 0) st;
          ft \<leftarrow> GET_FOOTER st ptr;
          st \<leftarrow> WRITE ft (PACK newsize 0) st;
          Some (ptr, st) }
        else if succ_alloc \<noteq> 0 then do {
          pb \<leftarrow> PRED_BLK st ptr;
          st \<leftarrow> delete_free_block_ft pb st;
          s1 \<leftarrow> GET_SIZE st (GET_HEADER ptr);
          s2 \<leftarrow> GET_SIZE st (PRED_FOOTER ptr);
          let newsize = (ucast (s1 + s2) :: size_t);
          pb \<leftarrow> PRED_BLK st ptr;
          st \<leftarrow> WRITE (GET_HEADER pb) (PACK newsize 0) st;
          ft \<leftarrow> GET_FOOTER st ptr;
          st \<leftarrow> WRITE ft (PACK newsize 0) st;
          pb \<leftarrow> PRED_BLK st ptr;
          Some (pb, st) }
        else do {
          pb \<leftarrow> PRED_BLK st ptr;
          st \<leftarrow> delete_free_block_ft pb st;
          sb \<leftarrow> SUCC_BLK st ptr;
          st \<leftarrow> delete_free_block_ft sb st;
          s1 \<leftarrow> GET_SIZE st (GET_HEADER ptr);
          s2 \<leftarrow> GET_SIZE st (PRED_FOOTER ptr);
          sh \<leftarrow> SUCC_HEADER st ptr;
          s3 \<leftarrow> GET_SIZE st sh;
          let newsize = (ucast (s1 + s2 + s3) :: size_t);
          pb \<leftarrow> PRED_BLK st ptr;
          st \<leftarrow> WRITE (GET_HEADER pb) (PACK newsize 0) st;
          sb \<leftarrow> SUCC_BLK st ptr;
          ft \<leftarrow> GET_FOOTER st sb;
          st \<leftarrow> WRITE ft (PACK newsize 0) st;
          pb \<leftarrow> PRED_BLK st ptr;
          Some (pb, st) });
     st \<leftarrow> insert_free_block_ft ptr st;
     Some (ptr, st) }"

definition build_ft :: "addr \<Rightarrow> size_t \<Rightarrow> ft \<Rightarrow> ft option" where
  "build_ft ptr sz st =
     (if ptr = 0 then Some st
      else do {
        st \<leftarrow> delete_free_block_ft ptr st;
        bs \<leftarrow> GET_SIZE st (GET_HEADER ptr);
        let blksize = (ucast bs :: size_t);
        if blksize - sz > ESIZE then do {
          st \<leftarrow> WRITE (GET_HEADER ptr) (PACK sz 1) st;
          ft \<leftarrow> GET_FOOTER st ptr;
          st \<leftarrow> WRITE ft (PACK sz 1) st;
          split \<leftarrow> SUCC_BLK st ptr;
          let blksize = blksize - sz;
          st \<leftarrow> WRITE (GET_HEADER split) (PACK blksize 0) st;
          ft \<leftarrow> GET_FOOTER st split;
          st \<leftarrow> WRITE ft (PACK blksize 0) st;
          st \<leftarrow> SET_PRED_FREE split 0 st;
          st \<leftarrow> SET_SUCC_FREE split 0 st;
          (_, st) \<leftarrow> merge_free_blocks_ft split st;
          Some st }
        else do {
          st \<leftarrow> WRITE (GET_HEADER ptr) (PACK blksize 1) st;
          ft \<leftarrow> GET_FOOTER st ptr;
          WRITE ft (PACK blksize 1) st } })"

definition extend_heap_ft :: "size_t \<Rightarrow> ft \<Rightarrow> (addr \<times> ft) option" where
  "extend_heap_ft extend_size st =
     (let extend_size = (if extend_size AND 1 \<noteq> 0 then (extend_size + 1) * WSIZE
                         else extend_size * WSIZE);
          (ptr, st) = mem_sbrk extend_size st
      in if ptr = - 1 then Some (0, st)
         else do {
           st \<leftarrow> WRITE (GET_HEADER ptr) (PACK extend_size 0) st;
           ft \<leftarrow> GET_FOOTER st ptr;
           st \<leftarrow> WRITE ft (PACK extend_size 0) st;
           st \<leftarrow> SET_PRED_FREE ptr 0 st;
           st \<leftarrow> SET_SUCC_FREE ptr 0 st;
           sb \<leftarrow> SUCC_BLK st ptr;
           st \<leftarrow> WRITE (GET_HEADER sb) (PACK 0 1) st;
           merge_free_blocks_ft ptr st })"

partial_function (option) allocate_loop_ft ::
  "ft \<Rightarrow> size_t \<Rightarrow> addr \<Rightarrow> addr \<Rightarrow> size_t \<Rightarrow> int \<Rightarrow> addr option" where
  "allocate_loop_ft st sz ptr best_fit best_fit_size fit_cnt =
     (if ptr = 0 then Some best_fit
      else do {
        ns \<leftarrow> GET_SIZE st (GET_HEADER ptr);
        let now_size = (ucast ns :: size_t);
        if now_size \<ge> sz then
          (let (best_fit, best_fit_size) =
                 (if best_fit = 0 \<or> now_size < best_fit_size then (ptr, now_size)
                  else (best_fit, best_fit_size));
               fit_cnt = fit_cnt + 1
           in if fit_cnt = 42 then Some best_fit
              else do {
                next \<leftarrow> SUCC_FREE st ptr;
                allocate_loop_ft st sz next best_fit best_fit_size fit_cnt })
        else do {
          next \<leftarrow> SUCC_FREE st ptr;
          allocate_loop_ft st sz next best_fit best_fit_size fit_cnt } })"

declare allocate_loop_ft.simps [code]

definition allocate_ft :: "size_t \<Rightarrow> ft \<Rightarrow> addr option" where
  "allocate_ft sz st = allocate_loop_ft st sz (free_blks_ft st) 0 0 0"

definition malloc_ft :: "size_t \<Rightarrow> ft \<Rightarrow> (addr \<times> ft) option" where
  "malloc_ft sz st =
     (if sz = 0 then Some (0, st)
      else
        let sz = DSIZE * ((sz + DSIZE - 1) div DSIZE + 1)
        in do {
          ptr \<leftarrow> allocate_ft sz st;
          if ptr \<noteq> 0 then do {
            st \<leftarrow> build_ft ptr sz st;
            Some (ptr, st) }
          else do {
            (ptr, st) \<leftarrow> extend_heap_ft (MAX_of sz CHUNKSIZE div WSIZE) st;
            if ptr = 0 then Some (0, st)
            else do {
              st \<leftarrow> build_ft ptr sz st;
              Some (ptr, st) } } })"

definition free_ft :: "addr \<Rightarrow> ft \<Rightarrow> ft option" where
  "free_ft ptr st =
     (if ptr = 0 then Some st
      else do {
        s \<leftarrow> GET_SIZE st (GET_HEADER ptr);
        let sz = (ucast s :: size_t);
        st \<leftarrow> WRITE (GET_HEADER ptr) (PACK sz 0) st;
        ft \<leftarrow> GET_FOOTER st ptr;
        st \<leftarrow> WRITE ft (PACK sz 0) st;
        st \<leftarrow> SET_PRED_FREE ptr 0 st;
        st \<leftarrow> SET_SUCC_FREE ptr 0 st;
        (_, st) \<leftarrow> merge_free_blocks_ft ptr st;
        Some st })"

definition realloc_ft :: "addr \<Rightarrow> size_t \<Rightarrow> ft \<Rightarrow> (addr \<times> ft) option" where
  "realloc_ft oldptr sz st =
     (if sz = 0 then do { st \<leftarrow> free_ft oldptr st; Some (0, st) }
      else if oldptr = 0 then malloc_ft sz st
      else do {
        (newptr, st) \<leftarrow> malloc_ft sz st;
        os \<leftarrow> GET_SIZE st (GET_HEADER oldptr);
        let oldsize = (ucast os :: size_t);
        ns \<leftarrow> GET_SIZE st (GET_HEADER newptr);
        let newsize = (ucast ns :: size_t);
        let cpysize = MIN_of oldsize newsize;
        st \<leftarrow> memcpy newptr oldptr (cpysize - DSIZE) st;
        st \<leftarrow> free_ft oldptr st;
        Some (newptr, st) })"

section \<open>Reasoning about the heap: addresses as numbers\<close>

text \<open>Two words of memory that do not share a byte.\<close>

definition far :: "addr \<Rightarrow> addr \<Rightarrow> bool" where
  "far p q = (4 \<le> unat (q - p) \<and> 4 \<le> unat (p - q))"

text \<open>The pointer with a given numeric address.\<close>

definition A :: "nat \<Rightarrow> addr" where
  "A a = of_nat a"

definition rd :: "'a machine_scheme \<Rightarrow> nat \<Rightarrow> uint" where
  "rd st a = load32 (mem st) (A a)"

definition wr :: "nat \<Rightarrow> uint \<Rightarrow> 'a machine_scheme \<Rightarrow> 'a machine_scheme" where
  "wr a v st = st\<lparr>mem := store32 (mem st) (A a) v\<rparr>"

definition inheap :: "'a machine_scheme \<Rightarrow> nat \<Rightarrow> bool" where
  "inheap st a = (unat (mem_lo st) \<le> a \<and> a + 4 \<le> unat (mem_hi st))"

text \<open>A header or footer word: the size, the PREV\_ALLOC bit and the ALLOC bit.\<close>

definition hw :: "nat \<Rightarrow> bool \<Rightarrow> bool \<Rightarrow> uint" where
  "hw sz pa al = of_nat sz OR (if pa then 2 else 0) OR (if al then 1 else 0)"

section \<open>Statements about the heap extender\<close>

text \<open>The rounding of \<^verbatim>\<open>_extend_heap\<close>: an odd word count is rounded up, then scaled to
  bytes.\<close>

definition round_bytes :: "size_t \<Rightarrow> size_t" where
  "round_bytes n = (if n AND 1 \<noteq> 0 then (n + 1) * WSIZE else n * WSIZE)"

text \<open>The extender can run: the provider has room for the rounded byte count, which is
  not zero and fits the 32-bit size field, and \<^verbatim>\<open>heap_end\<close> is the epilogue word, the
  last word of the region.\<close>

definition can_extend :: "'a heap_e_scheme \<Rightarrow> size_t \<Rightarrow> bool" where
  "can_extend st n =
     (round_bytes n \<noteq> 0 \<and> unat (round_bytes n) < 2 ^ 32
      \<and> unat (mem_hi st) + unat (round_bytes n) \<le> unat (mem_max st)
      \<and> heap_end st = mem_hi st - WSIZE
      \<and> unat (mem_lo st) + 4 \<le> unat (mem_hi st))"

text \<open>What the extender has written when it calls the coalescer: \<open>st\<close> is the state
  before the call, \<open>st'\<close> the state handed over.\<close>

definition new_block_framed :: "'a heap_e_scheme \<Rightarrow> 'a heap_e_scheme \<Rightarrow> size_t \<Rightarrow> bool" where
  "new_block_framed st st' bytes =
     (mem_hi st' = mem_hi st + bytes
      \<and> READ st' (heap_end st)
            = Some (hw (unat bytes) (bit (load32 (mem st) (heap_end st)) 1) False)
      \<and> READ st' (mem_hi st + bytes - DSIZE) = Some (hw (unat bytes) False False)
      \<and> heap_end st' = mem_hi st + bytes - WSIZE
      \<and> READ st' (heap_end st') = Some (hw 0 False True))"

text \<open>The state that the extender hands to the coalescer, written out: the region has
  grown by \<open>bytes\<close>, the header of the new block is stored over the old epilogue (the last
  word of the old region), the footer in the last word of the new block, the new epilogue
  in the last word of the new region, and \<^verbatim>\<open>heap_end\<close> points to it. Nothing else has
  changed.\<close>

definition extended :: "'a heap_e_scheme \<Rightarrow> size_t \<Rightarrow> 'a heap_e_scheme" where
  "extended st bytes =
     st\<lparr>mem := store32 (store32 (store32 (mem st)
                (mem_hi st - WSIZE)
                  (hw (unat bytes) (bit (load32 (mem st) (heap_end st)) 1) False))
                (mem_hi st + bytes - DSIZE) (hw (unat bytes) False False))
                (mem_hi st + bytes - WSIZE) (hw 0 False True),
        mem_hi := mem_hi st + bytes,
        heap_end := mem_hi st + bytes - WSIZE\<rparr>"

text \<open>What \<^verbatim>\<open>_extend_heap(0x40000002)\<close> returns on the heap right after \<^verbatim>\<open>mm_init\<close>, when
  the provider has room for the 4 GiB + 8 bytes asked for.\<close>

definition wrapped_extension :: mm where
  "wrapped_extension =
     \<lparr>mem = store32 (store32 (store32 (\<lambda>_. 0) 0x1004 17) 0x1010 17) 0x1014 10,
      mem_lo = 0x1000, mem_hi = 0x100001020, mem_max = 0x200001000,
      heap_ptr = 0x1010, heap_end = 0x101C, free_blks = 0x1018\<rparr>"

text \<open>A provider with no heap yet, and the heap right after \<^verbatim>\<open>mm_init\<close> on it.\<close>

definition fresh :: "addr \<Rightarrow> addr \<Rightarrow> mm" where
  "fresh lo mx = \<lparr>mem = (\<lambda>_. 0), mem_lo = lo, mem_hi = lo, mem_max = mx,
                  heap_ptr = 0, heap_end = 0, free_blks = 0\<rparr>"

definition fresh_seg :: "addr \<Rightarrow> addr \<Rightarrow> seg" where
  "fresh_seg lo mx = \<lparr>mem = (\<lambda>_. 0), mem_lo = lo, mem_hi = lo, mem_max = mx,
                      heap_ptr = 0, heap_end = 0, free_blks_seg = (\<lambda>_. 0)\<rparr>"

definition initial :: "addr \<Rightarrow> addr \<Rightarrow> mm" where
  "initial lo mx = (fresh lo mx)
     \<lparr>mem := store32 (store32 (store32 (\<lambda>_. 0) (lo + 4) 17) (lo + 16) 17) (lo + 20) 3,
      mem_hi := lo + 24, heap_ptr := lo + 16, heap_end := lo + 20\<rparr>"

definition initial_seg :: "addr \<Rightarrow> addr \<Rightarrow> seg" where
  "initial_seg lo mx = (fresh_seg lo mx)
     \<lparr>mem := store32 (store32 (store32 (\<lambda>_. 0) (lo + 4) 17) (lo + 16) 17) (lo + 20) 3,
      mem_hi := lo + 24, heap_ptr := lo + 16, heap_end := lo + 20\<rparr>"

section \<open>Concrete heaps\<close>

text \<open>The heap after \<^verbatim>\<open>mm_init\<close> and \<^verbatim>\<open>malloc(1)\<close> on a provider whose region starts at
  \<open>0x1000\<close> and may grow up to \<open>mx\<close>: one allocated block of 16 bytes. With
  \<open>mx = 0x1028\<close> the heap is full.\<close>

definition one_block :: "addr \<Rightarrow> mm" where
  "one_block mx = \<lparr>mem = store32 (store32 (store32 (store32 (store32 (\<lambda>_. 0)
                         0x1004 17) 0x1010 17) 0x1014 19) 0x1020 17) 0x1024 3,
                 mem_lo = 0x1000, mem_hi = 0x1028, mem_max = mx,
                 heap_ptr = 0x1010, heap_end = 0x1024, free_blks = 0\<rparr>"

section \<open>The placement search, on the free list as a list\<close>

text \<open>\<open>chain st p bl\<close>: following the next-links from \<open>p\<close> visits the blocks \<open>bl\<close>, each
  given by its payload pointer and the size in its header, and ends at the null pointer.\<close>

fun chain :: "'a heap_scheme \<Rightarrow> addr \<Rightarrow> (addr \<times> size_t) list \<Rightarrow> bool" where
  "chain st p [] = (p = 0)"
| "chain st p (b # bl) =
     (p \<noteq> 0 \<and> fst b = p \<and> map_option ucast (GET_SIZE st (GET_HEADER p)) = Some (snd b)
      \<and> (case SUCC_FREE st p of None \<Rightarrow> False | Some n \<Rightarrow> chain st n bl))"

definition fits :: "size_t \<Rightarrow> addr \<times> size_t \<Rightarrow> bool" where
  "fits sz b = (sz \<le> snd b)"

text \<open>The first block of smallest size; the null pointer for the empty list.\<close>

fun first_min :: "(addr \<times> size_t) list \<Rightarrow> addr" where
  "first_min [] = 0"
| "first_min (b # bl) = (if list_all (\<lambda>c. snd b \<le> snd c) bl then fst b else first_min bl)"

text \<open>The part of the list that the search of \<^verbatim>\<open>mm.c\<close> examines, the block it stops at
  left out: it stops at a block that does not fit, when a fit has been seen before and the
  blocks that do not fit, this one and all those before it, are more than 28.
  \<open>n\<close> counts the blocks seen so far that do not fit, \<open>found\<close> tells whether a fit has been
  seen.\<close>

fun nfit_cut :: "size_t \<Rightarrow> nat \<Rightarrow> bool \<Rightarrow> (addr \<times> size_t) list \<Rightarrow> (addr \<times> size_t) list" where
  "nfit_cut sz n found [] = []"
| "nfit_cut sz n found (b # bl) =
     (if fits sz b then b # nfit_cut sz n True bl
      else if 28 < n + 1 \<and> found then []
      else b # nfit_cut sz (n + 1) found bl)"


text \<open>The lists that the segregated search examines: the classes from \<open>i\<close> upwards, up to
  and including the first class that holds a fit.\<close>

function seg_examined :: "size_t \<Rightarrow> (nat \<Rightarrow> (addr \<times> size_t) list) \<Rightarrow> nat \<Rightarrow> (addr \<times> size_t) list" where
  "seg_examined sz bls i =
     (if i \<le> max_level then
        (if list_ex (fits sz) (bls i) then bls i else bls i @ seg_examined sz bls (i + 1))
      else [])"
  by pat_completeness auto
termination
  by (relation "measure (\<lambda>(sz, bls, i). max_level + 1 - i)") auto

declare seg_examined.simps [simp del]

text \<open>The accumulator step of the three searches: a block replaces the best so far when
  there is none yet or when it is strictly smaller.\<close>

definition pick :: "addr \<times> size_t \<Rightarrow> addr \<times> size_t \<Rightarrow> addr \<times> size_t" where
  "pick acc b = (if fst acc = 0 \<or> snd b < snd acc then b else acc)"

section \<open>Concrete free lists\<close>

text \<open>The memory whose 32-bit words from \<open>base\<close> on are \<open>ws\<close> (little-endian), zero
  elsewhere.\<close>

definition mem_of :: "addr \<Rightarrow> uint list \<Rightarrow> addr \<Rightarrow> 8 word" where
  "mem_of base ws =
     (\<lambda>a. let k = unat (a - base)
          in if k < 4 * length ws then ucast (drop_bit (8 * (k mod 4)) (ws ! (k div 4))) else 0)"

text \<open>The words of a free block of the footerless versions (header with PREV\_ALLOC set,
  the two links, padding, footer) and of an allocated block that follows a free one.\<close>

definition free_block :: "nat \<Rightarrow> uint \<Rightarrow> uint \<Rightarrow> uint list" where
  "free_block sz prev next = [of_nat sz OR 2, prev, next] @ replicate (sz div 4 - 4) 0 @ [of_nat sz]"

definition used_block :: "nat \<Rightarrow> uint list" where
  "used_block sz = [of_nat sz OR 1] @ replicate (sz div 4 - 1) 0"

text \<open>A heap of \<^verbatim>\<open>mm.c\<close> with 31 free blocks, each followed by an allocated block of 16
  bytes: 28 free blocks of 16 bytes, one of 64, one of 16 and one of 32, in address order,
  which is also the order of the free list (the state after allocating the 62 blocks in
  turn and freeing every other one, from the last to the first).\<close>

definition heap7_words :: "uint list" where
  "heap7_words =
     [0, 17, 0, 0, 17]
     @ concat (map (\<lambda>i. free_block 16 (if i = 0 then 0 else of_nat (32 * i - 24)) (of_nat (32 * i + 40))
                        @ used_block 16) [0..<28])
     @ free_block 64 872 984 @ used_block 16
     @ free_block 16 904 1016 @ used_block 16
     @ free_block 32 984 0 @ used_block 16
     @ [3]"

definition heap7 :: mm where
  "heap7 = \<lparr>mem = mem_of 0x1000 heap7_words, mem_lo = 0x1000, mem_hi = 0x1438, mem_max = 0x2000,
             heap_ptr = 0x1010, heap_end = 0x1434, free_blks = 0x1018\<rparr>"

definition list7_head :: "(addr \<times> size_t) list" where
  "list7_head = map (\<lambda>i. (0x1018 + 32 * of_nat i, 16)) [0..<28] @ [(0x1398, 64)]"

definition list7 :: "(addr \<times> size_t) list" where
  "list7 = list7_head @ [(0x13E8, 16), (0x1408, 32)]"

text \<open>A heap of the segregated version with seven free blocks of 128, 120, 112, 104, 96, 88
  and 80 bytes, all in the list of class 3 in this order, each followed by an allocated
  block of 16 bytes.\<close>

definition heap2_words :: "uint list" where
  "heap2_words =
     [0, 17, 0, 0, 17]
     @ free_block 128 0 152 @ used_block 16
     @ free_block 120 8 288 @ used_block 16
     @ free_block 112 152 416 @ used_block 16
     @ free_block 104 288 536 @ used_block 16
     @ free_block 96 416 648 @ used_block 16
     @ free_block 88 536 752 @ used_block 16
     @ free_block 80 648 0 @ used_block 16
     @ [3]"

definition heap2 :: seg where
  "heap2 = \<lparr>mem = mem_of 0x1000 heap2_words, mem_lo = 0x1000, mem_hi = 0x1360, mem_max = 0x2000,
             heap_ptr = 0x1010, heap_end = 0x135C, free_blks_seg = (\<lambda>_. 0)(3 := 0x1018)\<rparr>"

definition list2 :: "(addr \<times> size_t) list" where
  "list2 = [(0x1018, 128), (0x10A8, 120), (0x1130, 112), (0x11B0, 104), (0x1228, 96),
            (0x1298, 88), (0x1300, 80)]"

text \<open>A heap of the first version right after its \<^verbatim>\<open>mm_init\<close>: one free block of 4096
  bytes.\<close>

definition heap_ft :: ft where
  "heap_ft = \<lparr>mem = mem_of 0x1000 ([0, 17, 0, 0, 17, 4096, 0, 0] @ replicate 1020 0 @ [4096, 1]),
               mem_lo = 0x1000, mem_hi = 0x2018, mem_max = 0x4000,
               heap_ptr = 0x1010, free_blks_ft = 0x1018\<rparr>"


section \<open>Statements about the split in \<^verbatim>\<open>_build\<close>\<close>

text \<open>The size in the header of the block with payload pointer \<open>ptr\<close>, as a number.\<close>

definition block_size :: "'a machine_scheme \<Rightarrow> addr \<Rightarrow> nat" where
  "block_size st ptr = unat (load32 (mem st) (ptr - WSIZE) AND NOT 7)"

text \<open>\<^verbatim>\<open>_build\<close> can split the block at \<open>ptr\<close> for a request of \<open>sz\<close> bytes: the block
  lies in the heap, \<open>sz\<close> is a multiple of 8, at least 8, and the block is more than
  \<open>sz + 16\<close> bytes long (\<^verbatim>\<open>blksize - size > ESIZE\<close>, with \<^verbatim>\<open>size <= blksize\<close>).\<close>

definition can_split :: "'a machine_scheme \<Rightarrow> addr \<Rightarrow> size_t \<Rightarrow> bool" where
  "can_split st ptr sz =
     (unat (mem_lo st) + 4 \<le> unat ptr
      \<and> unat ptr + block_size st ptr \<le> unat (mem_hi st) + 4
      \<and> 8 dvd unat sz \<and> 8 \<le> unat sz \<and> unat sz + 16 < block_size st ptr)"

text \<open>The state that \<^verbatim>\<open>_build\<close> hands to the coalescer when it splits, written out:
  \<open>st\<close> is the state after the block has left the free list. Four words have been stored:
  the header of the allocated part, a footer \<^verbatim>\<open>PACK(size, 1)\<close> in the last word of the
  allocated part, the header of the remainder and the footer of the remainder.\<close>

definition split_written :: "'a machine_scheme \<Rightarrow> addr \<Rightarrow> size_t \<Rightarrow> 'a machine_scheme" where
  "split_written st ptr sz =
     st\<lparr>mem := store32 (store32 (store32 (store32 (mem st)
                (ptr - WSIZE) (hw (unat sz) (bit (load32 (mem st) (ptr - WSIZE)) 1) True))
                (ptr + sz - DSIZE) (hw (unat sz) False True))
                (ptr + sz - WSIZE) (hw (block_size st ptr - unat sz) True False))
                (ptr + of_nat (block_size st ptr) - DSIZE)
                  (hw (block_size st ptr - unat sz) False False)\<rparr>"

text \<open>What is to be read in that state.\<close>

definition split_framed :: "'a machine_scheme \<Rightarrow> 'a machine_scheme \<Rightarrow> addr \<Rightarrow> size_t \<Rightarrow> bool" where
  "split_framed st st' ptr sz =
     (READ st' (ptr - WSIZE) = Some (hw (unat sz) (bit (load32 (mem st) (ptr - WSIZE)) 1) True)
      \<and> READ st' (ptr + sz - DSIZE) = Some (hw (unat sz) False True)
      \<and> READ st' (ptr + sz - WSIZE) = Some (hw (block_size st ptr - unat sz) True False)
      \<and> READ st' (ptr + of_nat (block_size st ptr) - DSIZE)
           = Some (hw (block_size st ptr - unat sz) False False))"

text \<open>A heap of \<^verbatim>\<open>mm.c\<close> with one free block of 48 bytes at \<open>0x1018\<close>, followed by an
  allocated block of 16 bytes (the state after \<^verbatim>\<open>malloc(44)\<close>, \<^verbatim>\<open>malloc(1)\<close> and the
  \<^verbatim>\<open>free\<close> of the first block, the payload zeroed), and the same heap after
  \<^verbatim>\<open>_build(0x1018, 16)\<close>.\<close>

definition heap6 :: mm where
  "heap6 = \<lparr>mem = store32 (store32 (store32 (store32 (store32 (store32 (\<lambda>_. 0)
                     0x1004 17) 0x1010 17) 0x1014 50) 0x1040 48) 0x1044 17) 0x1054 3,
             mem_lo = 0x1000, mem_hi = 0x1058, mem_max = 0x2000,
             heap_ptr = 0x1010, heap_end = 0x1054, free_blks = 0x1018\<rparr>"

definition heap6_built :: mm where
  "heap6_built = \<lparr>mem = store32 (store32 (store32 (store32 (store32 (store32 (store32
                     (store32 (\<lambda>_. 0)
                     0x1004 17) 0x1010 17) 0x1014 19) 0x1020 17) 0x1024 34) 0x1040 32)
                     0x1044 17) 0x1054 3,
             mem_lo = 0x1000, mem_hi = 0x1058, mem_max = 0x2000,
             heap_ptr = 0x1010, heap_end = 0x1054, free_blks = 0x1028\<rparr>"

text \<open>The same two heaps in the segregated version: 48 bytes is level 1, 32 bytes level 0.\<close>

definition heap6_seg :: seg where
  "heap6_seg = \<lparr>mem = mem heap6,
             mem_lo = 0x1000, mem_hi = 0x1058, mem_max = 0x2000,
             heap_ptr = 0x1010, heap_end = 0x1054, free_blks_seg = (\<lambda>_. 0)(1 := 0x1018)\<rparr>"

definition heap6_seg_built :: seg where
  "heap6_seg_built = \<lparr>mem = mem heap6_built,
             mem_lo = 0x1000, mem_hi = 0x1058, mem_max = 0x2000,
             heap_ptr = 0x1010, heap_end = 0x1054, free_blks_seg = (\<lambda>_. 0)(0 := 0x1028)\<rparr>"



lemma bytes_join: "(ucast (ucast v :: 8 word) :: 32 word) OR push_bit 8 (ucast (ucast (drop_bit 8 v) :: 8 word))
    OR push_bit 16 (ucast (ucast (drop_bit 16 v) :: 8 word)) OR push_bit 24 (ucast (ucast (drop_bit 24 v) :: 8 word)) = (v :: 32 word)"
  apply (rule bit_word_eqI)
  apply (auto simp add: bit_simps)
  subgoal for n by (cases "n < 24") auto
  done

lemma load32_store32_same: "load32 (store32 m p v) p = v"
  by (simp add: load32_def store32_def bytes_join)


lemma far_aux: "4 \<le> unat (d::64 word) \<Longrightarrow> 4 \<le> unat (- d) \<Longrightarrow> d \<notin> {0, 1, 2, 3, -1, -2, -3}"
  by auto

lemma far_diff: assumes "far p q" shows "q - p \<notin> {0, 1, 2, 3, -1, -2, -3}"
  using assms far_aux[of "q - p"] unfolding far_def by simp

lemma far_ne:
  assumes f: "far p q" and i: "i \<in> {0, 1, 2, 3}" and j: "j \<in> {0, 1, 2, 3}"
  shows "q + i \<noteq> p + j"
proof
  assume e: "q + i = p + j"
  have "q - p = (q + i) - (p + i)" by simp
  also have "\<dots> = (p + j) - (p + i)" by (simp only: e)
  also have "\<dots> = j - i" by simp
  finally have d: "q - p = j - i" .
  have n: "j - i \<notin> {0, 1, 2, 3, -1, -2, -3}" using far_diff[OF f] unfolding d .
  from i j n show False
    by (elim insertE emptyE) simp_all
qed

lemma store32_other_byte:
  assumes "far p q" "i \<in> {0, 1, 2, 3}" shows "store32 m p v (q + i) = m (q + i)"
proof -
  have "q + i \<noteq> p + 0" "q + i \<noteq> p + 1" "q + i \<noteq> p + 2" "q + i \<noteq> p + 3"
    using assms by (simp_all only: far_ne insertI1 insertI2 not_False_eq_True)
  then show ?thesis by (simp add: store32_def)
qed

lemma load32_store32_other:
  "far p q \<Longrightarrow> load32 (store32 m p v) q = load32 m q"
  using store32_other_byte[of p q 0 m v] store32_other_byte[of p q 1 m v] store32_other_byte[of p q 2 m v] store32_other_byte[of p q 3 m v]
  by (simp add: load32_def)

text \<open>bytes outside the written word\<close>
lemma store32_byte_outside:
  "4 \<le> unat (x - p) \<Longrightarrow> store32 m p v x = m x"
proof -
  assume a: "4 \<le> unat (x - p)"
  have "x - p \<notin> {0,1,2,3}" using a by auto
  moreover have "\<And>j. x = p + j \<Longrightarrow> x - p = j" by simp
  ultimately have "x \<noteq> p" "x \<noteq> p + 1" "x \<noteq> p + 2" "x \<noteq> p + 3" by auto
  then show ?thesis by (simp add: store32_def)
qed

text \<open>nat addresses\<close>

lemma unat_A: "a < 2^64 \<Longrightarrow> unat (A a) = a"
  by (simp add: A_def unat_of_nat)

lemma A_unat: "A (unat p) = p"
  by (simp add: A_def)

lemma A_inj: "a < 2^64 \<Longrightarrow> b < 2^64 \<Longrightarrow> A a = A b \<longleftrightarrow> a = b"
  by (metis unat_A)

lemma A_0: "A 0 = 0"
  by (simp add: A_def)

lemma A_eq_0: "a < 2^64 \<Longrightarrow> A a = 0 \<longleftrightarrow> a = 0"
  using A_inj[of a 0] by (simp add: A_0)

lemma A_add: "A a + A b = A (a + b)"
  by (simp add: A_def)

lemma A_sub: "b \<le> a \<Longrightarrow> A a - A b = A (a - b)"
  by (simp add: A_def)

lemma A_num: "(4::addr) = A 4" "(8::addr) = A 8" "(16::addr) = A 16"
  by (simp_all add: A_def)

lemma A_add4: "A a + 4 = A (a + 4)" and A_add8: "A a + 8 = A (a + 8)"
  by (simp_all add: A_def)

lemma A_sub4: "4 \<le> a \<Longrightarrow> A a - 4 = A (a - 4)" and A_sub8: "8 \<le> a \<Longrightarrow> A a - 8 = A (a - 8)"
  by (simp_all add: A_def)

lemma unat_neg64: "(x::64 word) \<noteq> 0 \<Longrightarrow> unat (- x) = 2^64 - unat x"
  using unat_sub_if_size[of 0 x] by (simp add: word_size unat_eq_0)

lemma far_A1: assumes "a + 4 \<le> b" "b + 4 \<le> 2^64" shows "far (A a) (A b)"
proof -
  have d: "A b - A a = A (b - a)" using assms by (simp add: A_sub)
  have u: "unat (A (b - a)) = b - a" using assms by (simp add: unat_A)
  have "unat (A (b - a)) \<noteq> 0" using u assms by simp
  then have nz: "A (b - a) \<noteq> 0" by (simp add: unat_eq_0)
  have "A a - A b = - A (b - a)" using d by (metis minus_diff_eq)
  then have f1: "unat (A a - A b) = 2^64 - (b - a)" using unat_neg64[OF nz] u by simp
  have f2: "unat (A b - A a) = b - a" using d u by simp
  show ?thesis unfolding far_def f1 f2 using assms by arith
qed

lemma far_sym: "far p q = far q p"
  by (auto simp: far_def)

lemma far_A: "a + 4 \<le> b \<or> b + 4 \<le> a \<Longrightarrow> a + 4 \<le> 2^64 \<Longrightarrow> b + 4 \<le> 2^64 \<Longrightarrow> far (A a) (A b)"
  using far_A1[of a b] far_A1[of b a] far_sym by blast

subsection \<open>Reading and writing at numeric addresses\<close>

lemma wr_fields [simp]:
  "mem_lo (wr a v st) = mem_lo st" "mem_hi (wr a v st) = mem_hi st" "mem_max (wr a v st) = mem_max st"
  "machine.more (wr a v st) = machine.more st"
  by (simp_all add: wr_def)

lemma wr_heap_fields [simp]:
  "heap_ptr (wr a v st) = heap_ptr st" "heap_end (wr a v st') = heap_end st'"
  "free_blks (wr a v st'') = free_blks st''"
  by (simp_all add: wr_def)

lemma inheap_wr [simp]: "inheap (wr a v st) b = inheap st b"
  by (simp add: inheap_def)

lemma inheap_lt: "inheap st a \<Longrightarrow> a + 4 \<le> 2^64"
proof -
  assume "inheap st a"
  moreover have "unat (mem_hi st) < 2^64" using unsigned_less[of "mem_hi st"] by simp
  ultimately show ?thesis by (simp add: inheap_def)
qed

lemma READ_A: "inheap st a \<Longrightarrow> READ st (A a) = Some (rd st a)"
  using inheap_lt[of st a] by (simp add: READ_def mapped_def inheap_def rd_def unat_A)

lemma READ_A_None: "a < 2^64 \<Longrightarrow> \<not> inheap st a \<Longrightarrow> READ st (A a) = None"
  by (simp add: READ_def mapped_def inheap_def rd_def unat_A)

lemma WRITE_A: "inheap st a \<Longrightarrow> WRITE (A a) v st = Some (wr a v st)"
  using inheap_lt[of st a] by (simp add: WRITE_def mapped_def inheap_def wr_def unat_A)

lemma rd_wr_same [simp]: "rd (wr a v st) a = v"
  by (simp add: rd_def wr_def load32_store32_same)

lemma rd_wr_far: "a + 4 \<le> b \<or> b + 4 \<le> a \<Longrightarrow> a + 4 \<le> 2^64 \<Longrightarrow> b + 4 \<le> 2^64 \<Longrightarrow> rd (wr a v st) b = rd st b"
  by (simp add: rd_def wr_def load32_store32_other far_A)

lemma rd_wr_lt: "a + 4 \<le> b \<Longrightarrow> b + 4 \<le> 2^64 \<Longrightarrow> rd (wr a v st) b = rd st b"
  by (simp add: rd_wr_far)

lemma rd_wr_gt: "b + 4 \<le> a \<Longrightarrow> a + 4 \<le> 2^64 \<Longrightarrow> rd (wr a v st) b = rd st b"
  by (simp add: rd_wr_far)

lemma mem_wr_outside: "x < a \<or> a + 4 \<le> x \<Longrightarrow> a + 4 \<le> 2^64 \<Longrightarrow> x < 2^64 \<Longrightarrow> mem (wr a v st) (A x) = mem st (A x)"
proof -
  assume h: "x < a \<or> a + 4 \<le> x" "a + 4 \<le> 2^64" "x < 2^64"
  have "4 \<le> unat (A x - A a)"
  proof (cases "x < a")
    case True
    then have "A x - A a = - A (a - x)" using A_sub[of x a] by (metis less_imp_le minus_diff_eq)
    moreover have "unat (A (a - x)) = a - x" using h True by (simp add: unat_A)
    moreover have "A (a - x) \<noteq> 0" using True h by (simp add: A_eq_0)
    ultimately show ?thesis using unat_neg64[of "A (a - x)"] h True by simp
  next
    case False
    then have "A x - A a = A (x - a)" using A_sub[of a x] by simp
    then show ?thesis using h False by (simp add: unat_A)
  qed
  then show ?thesis by (simp add: wr_def store32_byte_outside)
qed

subsection \<open>Header words\<close>

lemma seven_mask: "(7::'a::len word) = mask 3"
  by (simp add: mask_eq_exp_minus_1)

lemma two_bit: "bit (2::'a::len word) n \<longleftrightarrow> n = 1 \<and> 1 < LENGTH('a)"
  using bit_push_bit_iff[of 1 "1::'a word" n] by (auto simp: bit_simps)

lemma low_bits: assumes "8 dvd sz" "n < 3" shows "\<not> bit (of_nat sz :: uint) n"
proof -
  have "8 dvd unat (of_nat sz :: uint)" using assms(1) by (simp add: unat_of_nat dvd_mod_iff)
  then have "(of_nat sz :: uint) AND mask 3 = 0" using and_mask_dvd_nat[of 3 "of_nat sz :: uint"] by simp
  then have "\<not> bit ((of_nat sz :: uint) AND mask 3) n" by simp
  then show ?thesis using assms(2) by (simp add: bit_simps)
qed

lemma low_bits_nat: assumes "8 dvd (sz::nat)" shows "\<not> bit sz 0" "\<not> bit sz (Suc 0)" "\<not> bit sz 2"
proof -
  from assms obtain k where k: "sz = 8 * k" by (auto elim: dvdE)
  show "\<not> bit sz 0" by (simp add: k bit_iff_odd)
  show "\<not> bit sz (Suc 0)" by (simp add: k bit_iff_odd)
  show "\<not> bit sz 2" by (simp add: k bit_iff_odd)
qed

lemma low_bits_nat0: "8 dvd (sz::nat) \<Longrightarrow> bit sz n \<Longrightarrow> 0 < n"
  using low_bits_nat(1) by (cases n) auto

lemma hw_size: "8 dvd sz \<Longrightarrow> hw sz pa al AND NOT 7 = of_nat sz"
  apply (rule bit_word_eqI)
  apply (auto simp add: hw_def seven_mask two_bit bit_simps low_bits_nat dest: low_bits)
  done

lemma hw_alloc: "8 dvd sz \<Longrightarrow> hw sz pa al AND 1 = (if al then 1 else 0)"
  apply (rule bit_word_eqI)
  apply (auto simp add: hw_def two_bit bit_simps low_bits_nat dest: low_bits)
  apply (erule (1) low_bits_nat0)
  done

lemma hw_prealloc: "8 dvd sz \<Longrightarrow> hw sz pa al AND 2 = (if pa then 2 else 0)"
  apply (rule bit_word_eqI)
  apply (auto simp add: hw_def two_bit bit_simps low_bits_nat dest: low_bits)
  done

lemma hw_set_pa: "hw sz pa al OR 2 = hw sz True al"
  apply (rule bit_word_eqI)
  apply (auto simp add: hw_def two_bit bit_simps)
  done

lemma hw_reset_pa: "8 dvd sz \<Longrightarrow> hw sz pa al AND NOT 2 = hw sz False al"
  apply (rule bit_word_eqI)
  apply (auto simp add: hw_def two_bit bit_simps low_bits_nat dest: low_bits)
  done

lemma ucast_of_nat32: "sz < 2^32 \<Longrightarrow> (ucast (of_nat sz :: uint) :: 64 word) = of_nat sz"
  by (simp add: unsigned_of_nat take_bit_nat_eq_self)

lemma PACK_hw: "sz < 2^32 \<Longrightarrow> PACK (of_nat sz) ((if pa then 2 else 0) OR (if al then 1 else 0)) = hw sz pa al"
  apply (rule bit_word_eqI)
  apply (auto simp add: hw_def PACK_def two_bit bit_simps)
  done



lemma and2_cases: "(e::uint) AND 2 = (if bit e 1 then 2 else 0)"
  apply (rule bit_word_eqI)
  apply (auto simp add: two_bit bit_simps)
  done

lemma ucast_pa: "(ucast (if c then 2 else 0 :: uint) :: size_t) = (if c then 2 else 0)"
  by simp

lemma PACK_hw_pa: "sz < 2^32 \<Longrightarrow> PACK (A sz) (if pa then 2 else 0) = hw sz pa False"
  using PACK_hw[of sz pa False] by (simp add: A_def)

lemma PACK_hw_0: "sz < 2^32 \<Longrightarrow> PACK (A sz) 0 = hw sz False False"
  using PACK_hw[of sz False False] by (simp add: A_def)

lemma PACK_A:
  assumes "sz < 2^32"
  shows "PACK (A sz) 0 = hw sz False False" "PACK (A sz) 1 = hw sz False True"
        "PACK (A sz) 2 = hw sz True False" "PACK (A sz) 3 = hw sz True True"
  using PACK_hw[OF assms, of False False] PACK_hw[OF assms, of False True]
        PACK_hw[OF assms, of True False] PACK_hw[OF assms, of True True]
  by (simp_all add: A_def)

lemma PACK_0_1: "PACK 0 1 = hw 0 False True"
  by (simp add: PACK_def hw_def)

lemma hw_size': "8 dvd sz \<Longrightarrow> hw sz pa al AND - 8 = of_nat sz"
  using hw_size[of sz pa al] by simp

lemma hw_reset_pa': "8 dvd sz \<Longrightarrow> hw sz pa al AND - 3 = hw sz False al"
  using hw_reset_pa[of sz pa al] by simp

lemma GET_HEADER_A: "4 \<le> p \<Longrightarrow> GET_HEADER (A p) = A (p - 4)"
  by (simp add: GET_HEADER_def WSIZE_def A_sub4)

lemma GET_SIZE_A: "inheap st a \<Longrightarrow> GET_SIZE st (A a) = Some (rd st a AND NOT 7)"
  by (simp add: GET_SIZE_def READ_A)

lemma GET_SIZE_hw: "inheap st a \<Longrightarrow> rd st a = hw sz pa al \<Longrightarrow> 8 dvd sz \<Longrightarrow> GET_SIZE st (A a) = Some (of_nat sz)"
  by (simp add: GET_SIZE_def READ_A hw_size')

lemma GET_PREALLOC_A: "inheap st a \<Longrightarrow> GET_PREALLOC st (A a) = Some (rd st a AND 2)"
  by (simp add: GET_PREALLOC_def READ_A)

lemma GET_ALLOC_A: "inheap st a \<Longrightarrow> GET_ALLOC st (A a) = Some (rd st a AND 1)"
  by (simp add: GET_ALLOC_def READ_A)

lemma A_add_ucast: "sz < 2^32 \<Longrightarrow> A p + ucast (of_nat sz :: uint) = A (p + sz)"
  by (simp add: ucast_of_nat32 A_def)

lemma A_sub_ucast: "sz < 2^32 \<Longrightarrow> sz \<le> p \<Longrightarrow> A p - ucast (of_nat sz :: uint) = A (p - sz)"
  by (simp add: ucast_of_nat32 A_def)

text \<open>Macros on a block whose header holds size sz\<close>

lemma GET_FOOTER_A:
  "inheap st (p - 4) \<Longrightarrow> 4 \<le> p \<Longrightarrow> rd st (p - 4) = hw sz pa al \<Longrightarrow> 8 dvd sz \<Longrightarrow> sz < 2^32 \<Longrightarrow> 8 \<le> p + sz
   \<Longrightarrow> GET_FOOTER st (A p) = Some (A (p + sz - 8))"
  by (simp add: GET_FOOTER_def GET_HEADER_A GET_SIZE_A hw_size' A_add_ucast DSIZE_def A_sub8)

lemma SUCC_HEADER_A:
  "inheap st (p - 4) \<Longrightarrow> 4 \<le> p \<Longrightarrow> rd st (p - 4) = hw sz pa al \<Longrightarrow> 8 dvd sz \<Longrightarrow> sz < 2^32
   \<Longrightarrow> SUCC_HEADER st (A p) = Some (A (p + sz - 4))"
  by (simp add: SUCC_HEADER_def GET_HEADER_A GET_SIZE_A hw_size' A_add_ucast WSIZE_def A_sub4)

lemma SUCC_BLK_A:
  "inheap st (p - 4) \<Longrightarrow> 4 \<le> p \<Longrightarrow> rd st (p - 4) = hw sz pa al \<Longrightarrow> 8 dvd sz \<Longrightarrow> sz < 2^32
   \<Longrightarrow> SUCC_BLK st (A p) = Some (A (p + sz))"
  by (simp add: SUCC_BLK_def GET_HEADER_A GET_SIZE_A hw_size' A_add_ucast)


lemma unat_lt64: "unat (w::64 word) < 18446744073709551616"
  using unsigned_less[of w, where 'a=nat] by simp

lemma round_bytes_aligned: "round_bytes n AND 7 = 0"
proof -
  have e: "\<And>m::size_t. m AND 1 = 0 \<Longrightarrow> (m * 4) AND 7 = 0"
  proof -
    fix m :: size_t assume "m AND 1 = 0"
    then have "even m" by (simp add: and_one_eq mod_2_eq_odd) 
    then obtain k where "m = 2 * k" by (auto elim: evenE)
    then have "m * 4 = push_bit 3 k" by (simp add: push_bit_eq_mult)
    then show "(m * 4) AND 7 = 0"
      by (simp add: seven_mask) (rule bit_word_eqI, simp add: bit_simps)
  qed
  have "n AND 1 \<noteq> 0 \<Longrightarrow> (n + 1) AND 1 = 0"
    by (simp add: and_one_eq mod_2_eq_odd)
  then show ?thesis using e[of n] e[of "n + 1"] by (auto simp: WSIZE_def round_bytes_def)
qed

lemma extend_heap_steps:
  fixes st :: mm
  assumes b8: "8 dvd b" and bpos: "0 < b" and b32: "b < 2^32"
    and room: "unat (mem_hi st) + b \<le> unat (mem_max st)"
    and h: "h = unat (mem_hi st)" and lo: "unat (mem_lo st) + 4 \<le> h"
    and ep: "heap_end st = A (h - 4)"
    and nb: "round_bytes n = A b"
  shows "extend_heap n st =
           merge_free_blocks (A h)
             (wr (h + b - 4) (hw 0 False True)
               ((wr (h + b - 8) (hw b False False)
                 (wr (h - 4) (hw b (bit (rd st (h - 4)) 1) False) (st\<lparr>mem_hi := A (h + b)\<rparr>)))
                \<lparr>heap_end := A (h + b - 4)\<rparr>))"
proof -
  have hb: "h + b < 2^64"
    using room h unat_lt64[of "mem_max st"] by simp
  have ub: "unat (A b) = b" using b32 by (simp add: unat_A)
  have hA: "mem_hi st = A h" by (simp add: h A_unat)
  have sb: "mem_sbrk (A b) st = (A h, st\<lparr>mem_hi := A (h + b)\<rparr>)"
    using room unfolding mem_sbrk_def ub hA[symmetric] h[symmetric] by (simp add: hA A_add)
  have ne: "A h \<noteq> - 1"
  proof
    assume "A h = - 1"
    then have "unat (A h) = unat (- 1 :: addr)" by simp
    then show False using hb bpos by (simp add: unat_A unsigned_minus_1_eq_mask mask_eq_exp_minus_1)
  qed
  define st1 where "st1 = st\<lparr>mem_hi := A (h + b)\<rparr>"
  have ih1: "\<And>x. inheap st1 x \<longleftrightarrow> unat (mem_lo st) \<le> x \<and> x + 4 \<le> h + b"
    using hb by (simp add: inheap_def st1_def unat_A)
  have r1: "rd st1 (h - 4) = rd st (h - 4)" by (simp add: rd_def st1_def)
  have b8': "8 \<le> b" using b8 bpos by (auto elim: dvdE)
  define e where "e = rd st (h - 4)"
  define st2 where "st2 = wr (h - 4) (hw b (bit e 1) False) st1"
  define st3 where "st3 = wr (h + b - 8) (hw b False False) st2"
  define st4 where "st4 = st3\<lparr>heap_end := A (h + b - 4)\<rparr>"
  have he1: "heap_end st1 = A (h - 4)" by (simp add: st1_def ep)
  have p1: "GET_PREALLOC st1 (heap_end st1) = Some (if bit e 1 then 2 else 0)"
    using lo by (simp add: he1 GET_PREALLOC_A ih1 r1 e_def and2_cases)
  have w1: "WRITE (GET_HEADER (A h)) (PACK (A b) (ucast (if bit e 1 then 2 else 0 :: uint))) st1 = Some st2"
    using lo b32 by (simp add: GET_HEADER_A WRITE_A ih1 st2_def PACK_A)
  have f2: "GET_FOOTER st2 (A h) = Some (A (h + b - 8))"
    by (rule GET_FOOTER_A[where sz=b and pa="bit e 1" and al=False])
       (use lo b32 b8 b8' in \<open>simp_all add: st2_def ih1\<close>)
  have w2: "WRITE (A (h + b - 8)) (PACK (A b) 0) st2 = Some st3"
    using lo b32 b8' by (simp add: WRITE_A st2_def ih1 st3_def PACK_hw_0)
  have r3: "rd st3 (h - 4) = hw b (bit e 1) False"
    using lo b8' hb by (simp add: st3_def st2_def rd_wr_gt)
  have s3: "SUCC_BLK st3 (A h) = Some (A (h + b))"
    by (rule SUCC_BLK_A[where sz=b and pa="bit e 1" and al=False])
       (use lo b32 b8 r3 in \<open>simp_all add: st3_def st2_def ih1\<close>)
  have he4: "heap_end st4 = A (h + b - 4)" by (simp add: st4_def)
  have ih4: "\<And>x. inheap st4 x = inheap st1 x" by (simp add: st4_def st3_def st2_def inheap_def)
  have w4: "WRITE (heap_end st4) (PACK 0 1) st4 = Some (wr (h + b - 4) (hw 0 False True) st4)"
    using lo b8' by (simp add: he4 WRITE_A ih4 ih1 PACK_0_1)
  have gh: "GET_HEADER (A (h + b)) = A (h + b - 4)" using lo by (simp add: GET_HEADER_A)
  show ?thesis
    unfolding extend_heap_def round_bytes_def[symmetric] nb Let_def sb
    using ne p1 w1 f2 w2 s3 w4
    by (simp add: st1_def[symmetric] gh st4_def[symmetric])
       (simp add: st4_def st3_def st2_def st1_def e_def)
qed


lemma extend_heap_seg_steps:
  fixes st :: seg
  assumes b8: "8 dvd b" and bpos: "0 < b" and b32: "b < 2^32"
    and room: "unat (mem_hi st) + b \<le> unat (mem_max st)"
    and h: "h = unat (mem_hi st)" and lo: "unat (mem_lo st) + 4 \<le> h"
    and ep: "heap_end st = A (h - 4)"
    and nb: "round_bytes n = A b"
  shows "extend_heap_seg n st =
           merge_free_blocks_seg (A h)
             (wr (h + b - 4) (hw 0 False True)
               ((wr (h + b - 8) (hw b False False)
                 (wr (h - 4) (hw b (bit (rd st (h - 4)) 1) False) (st\<lparr>mem_hi := A (h + b)\<rparr>)))
                \<lparr>heap_end := A (h + b - 4)\<rparr>))"
proof -
  have hb: "h + b < 2^64"
    using room h unat_lt64[of "mem_max st"] by simp
  have ub: "unat (A b) = b" using b32 by (simp add: unat_A)
  have hA: "mem_hi st = A h" by (simp add: h A_unat)
  have sb: "mem_sbrk (A b) st = (A h, st\<lparr>mem_hi := A (h + b)\<rparr>)"
    using room unfolding mem_sbrk_def ub hA[symmetric] h[symmetric] by (simp add: hA A_add)
  have ne: "A h \<noteq> - 1"
  proof
    assume "A h = - 1"
    then have "unat (A h) = unat (- 1 :: addr)" by simp
    then show False using hb bpos by (simp add: unat_A unsigned_minus_1_eq_mask mask_eq_exp_minus_1)
  qed
  define st1 where "st1 = st\<lparr>mem_hi := A (h + b)\<rparr>"
  have ih1: "\<And>x. inheap st1 x \<longleftrightarrow> unat (mem_lo st) \<le> x \<and> x + 4 \<le> h + b"
    using hb by (simp add: inheap_def st1_def unat_A)
  have r1: "rd st1 (h - 4) = rd st (h - 4)" by (simp add: rd_def st1_def)
  have b8': "8 \<le> b" using b8 bpos by (auto elim: dvdE)
  define e where "e = rd st (h - 4)"
  define st2 where "st2 = wr (h - 4) (hw b (bit e 1) False) st1"
  define st3 where "st3 = wr (h + b - 8) (hw b False False) st2"
  define st4 where "st4 = st3\<lparr>heap_end := A (h + b - 4)\<rparr>"
  have he1: "heap_end st1 = A (h - 4)" by (simp add: st1_def ep)
  have p1: "GET_PREALLOC st1 (heap_end st1) = Some (if bit e 1 then 2 else 0)"
    using lo by (simp add: he1 GET_PREALLOC_A ih1 r1 e_def and2_cases)
  have w1: "WRITE (GET_HEADER (A h)) (PACK (A b) (ucast (if bit e 1 then 2 else 0 :: uint))) st1 = Some st2"
    using lo b32 by (simp add: GET_HEADER_A WRITE_A ih1 st2_def PACK_A)
  have f2: "GET_FOOTER st2 (A h) = Some (A (h + b - 8))"
    by (rule GET_FOOTER_A[where sz=b and pa="bit e 1" and al=False])
       (use lo b32 b8 b8' in \<open>simp_all add: st2_def ih1\<close>)
  have w2: "WRITE (A (h + b - 8)) (PACK (A b) 0) st2 = Some st3"
    using lo b32 b8' by (simp add: WRITE_A st2_def ih1 st3_def PACK_hw_0)
  have r3: "rd st3 (h - 4) = hw b (bit e 1) False"
    using lo b8' hb by (simp add: st3_def st2_def rd_wr_gt)
  have s3: "SUCC_BLK st3 (A h) = Some (A (h + b))"
    by (rule SUCC_BLK_A[where sz=b and pa="bit e 1" and al=False])
       (use lo b32 b8 r3 in \<open>simp_all add: st3_def st2_def ih1\<close>)
  have he4: "heap_end st4 = A (h + b - 4)" by (simp add: st4_def)
  have ih4: "\<And>x. inheap st4 x = inheap st1 x" by (simp add: st4_def st3_def st2_def inheap_def)
  have w4: "WRITE (heap_end st4) (PACK 0 1) st4 = Some (wr (h + b - 4) (hw 0 False True) st4)"
    using lo b8' by (simp add: he4 WRITE_A ih4 ih1 PACK_0_1)
  have gh: "GET_HEADER (A (h + b)) = A (h + b - 4)" using lo by (simp add: GET_HEADER_A)
  show ?thesis
    unfolding extend_heap_seg_def round_bytes_def[symmetric] nb Let_def sb
    using ne p1 w1 f2 w2 s3 w4
    by (simp add: st1_def[symmetric] gh st4_def[symmetric])
       (simp add: st4_def st3_def st2_def st1_def e_def)
qed


lemma can_extend_nat:
  assumes "can_extend st n"
  defines "b \<equiv> unat (round_bytes n)" and "h \<equiv> unat (mem_hi st)"
  shows "8 dvd b" "0 < b" "b < 2^32" "unat (mem_hi st) + b \<le> unat (mem_max st)"
        "unat (mem_lo st) + 4 \<le> h" "heap_end st = A (h - 4)" "round_bytes n = A b"
        "h + b < 2^64" "mem_hi st = A h"
proof -
  have "round_bytes n AND mask 3 = 0" using round_bytes_aligned[of n] by (simp add: seven_mask)
  then show "8 dvd b" using and_mask_dvd_nat[of 3 "round_bytes n"] by (simp add: b_def)
  show "0 < b" using assms(1) by (simp add: can_extend_def b_def unat_gt_0)
  show "b < 2^32" using assms(1) by (simp add: can_extend_def b_def)
  show r: "unat (mem_hi st) + b \<le> unat (mem_max st)" using assms(1) by (simp add: can_extend_def b_def)
  show l: "unat (mem_lo st) + 4 \<le> h" using assms(1) by (simp add: can_extend_def h_def)
  have "heap_end st = A h - 4" using assms(1) by (simp add: can_extend_def h_def A_unat WSIZE_def)
  then show "heap_end st = A (h - 4)" using l by (simp add: A_sub4)
  show "round_bytes n = A b" by (simp add: b_def A_unat)
  show "h + b < 2^64" using r unat_lt64[of "mem_max st"] by (simp add: h_def)
  show "mem_hi st = A h" by (simp add: h_def A_unat)
qed

lemma framed_after_writes:
  fixes st :: "'a heap_e_scheme"
  assumes b8: "8 \<le> b" and hb: "h + b < 2^64" and lo: "unat (mem_lo st) + 4 \<le> h"
    and ep: "heap_end st = A (h - 4)" and hi: "mem_hi st = A h" and ub: "unat bytes = b"
  shows "new_block_framed st
             (wr (h + b - 4) (hw 0 False True)
               ((wr (h + b - 8) (hw b False False)
                 (wr (h - 4) (hw b (bit (rd st (h - 4)) 1) False) (st\<lparr>mem_hi := A (h + b)\<rparr>)))
                \<lparr>heap_end := A (h + b - 4)\<rparr>)) bytes"
proof -
  have bA: "bytes = A b" using ub A_unat[of bytes] by simp
  define st1 where "st1 = st\<lparr>mem_hi := A (h + b)\<rparr>"
  have ih1: "\<And>x. inheap st1 x \<longleftrightarrow> unat (mem_lo st) \<le> x \<and> x + 4 \<le> h + b"
    using hb by (simp add: inheap_def st1_def unat_A)
  define st5 where "st5 = wr (h + b - 4) (hw 0 False True)
               ((wr (h + b - 8) (hw b False False)
                 (wr (h - 4) (hw b (bit (rd st (h - 4)) 1) False) st1))
                \<lparr>heap_end := A (h + b - 4)\<rparr>)"
  have ih5: "\<And>x. inheap st5 x = inheap st1 x" by (simp add: st5_def inheap_def)
  have rd_he: "\<And>s a (v::addr). rd (s\<lparr>heap_end := v\<rparr>) a = rd s a" by (simp add: rd_def)
  have wr_he: "\<And>s a w (v::addr). wr a w (s\<lparr>heap_end := v\<rparr>) = (wr a w s)\<lparr>heap_end := v\<rparr>" by (simp add: wr_def)
  have a1: "mem_hi st5 = mem_hi st + bytes" by (simp add: st5_def st1_def hi bA A_add)
  have a2: "READ st5 (heap_end st) = Some (hw b (bit (rd st (h - 4)) 1) False)"
    using b8 hb lo by (simp add: ep READ_A ih5 ih1) (simp add: st5_def wr_he rd_he rd_wr_gt)
  have a3: "READ st5 (mem_hi st + bytes - DSIZE) = Some (hw b False False)"
    using b8 hb lo by (simp add: hi bA A_add DSIZE_def A_sub8 READ_A ih5 ih1) (simp add: st5_def wr_he rd_he rd_wr_gt)
  have a4: "heap_end st5 = mem_hi st + bytes - WSIZE"
    using b8 by (simp add: st5_def hi bA A_add WSIZE_def A_sub4)
  have a5: "READ st5 (heap_end st5) = Some (hw 0 False True)"
    using b8 hb lo by (simp add: a4 hi bA A_add WSIZE_def A_sub4 READ_A ih5 ih1) (simp add: st5_def)
  have "rd st (h - 4) = load32 (mem st) (heap_end st)" by (simp add: rd_def ep)
  then show ?thesis
    unfolding new_block_framed_def st5_def[unfolded st1_def, symmetric]
    using a1 a2 a3 a4 a5 by (simp add: ub)
qed


lemma extended_nat:
  fixes st :: "'a heap_e_scheme"
  assumes b8: "8 \<le> b" and lo: "4 \<le> h"
    and ep: "heap_end st = A (h - 4)" and hi: "mem_hi st = A h" and bytes: "bytes = A b" "unat bytes = b"
  shows "wr (h + b - 4) (hw 0 False True)
               ((wr (h + b - 8) (hw b False False)
                 (wr (h - 4) (hw b (bit (rd st (h - 4)) 1) False) (st\<lparr>mem_hi := A (h + b)\<rparr>)))
                \<lparr>heap_end := A (h + b - 4)\<rparr>) = extended st bytes"
proof -
  have a4: "mem_hi st + bytes = A (h + b)" by (simp add: hi bytes(1) A_add)
  have a1: "mem_hi st - WSIZE = A (h - 4)" using lo by (simp add: hi WSIZE_def A_sub4)
  have a2: "A (h + b) - DSIZE = A (h + b - 8)" using b8 by (simp add: DSIZE_def A_sub8)
  have a3: "A (h + b) - WSIZE = A (h + b - 4)" using b8 by (simp add: WSIZE_def A_sub4)
  have r: "rd st (h - 4) = load32 (mem st) (heap_end st)" by (simp add: rd_def ep)
  show ?thesis
    unfolding extended_def a4 a1 a2 a3 bytes(2) r[symmetric]
    by (simp add: wr_def rd_def)
qed

lemmas eval_defs = READ_def WRITE_def mapped_def GET_SIZE_def GET_ALLOC_def GET_PREALLOC_def
  SET_PREALLOC_def RESET_PREALLOC_def GET_HEADER_def GET_FOOTER_def PRED_FOOTER_def SUCC_HEADER_def
  PRED_BLK_def SUCC_BLK_def PRED_FREE_def SUCC_FREE_def SET_PRED_FREE_def SET_SUCC_FREE_def
  WSIZE_def DSIZE_def ESIZE_def PACK_def MAX_of_def MIN_of_def mem_sbrk_def
  load32_store32_other load32_store32_same far_def

text \<open>
  Claim C5, as amended. On a successful heap extension by more than 0 and fewer than \<open>2^32\<close>
  bytes (both footerless versions), the extender returns what the coalescer returns on
  the state \<open>extended st bytes\<close>, called with the new block: in that state the header of the
  new free block has been written over the previous epilogue word, with the rounded byte
  count as size, ALLOC = 0 and the previous epilogue's PREV\_ALLOC bit; a footer with the
  same size has been written in the last word of the new block; a new epilogue word
  (size 0, ALLOC = 1) has been written right after it, and \<^verbatim>\<open>heap_end\<close> points to it.
\<close>

theorem extend_heap_frames_new_block:
  "(can_extend st n \<longrightarrow>
      extend_heap n st = merge_free_blocks (mem_hi st) (extended st (round_bytes n))
      \<and> new_block_framed st (extended st (round_bytes n)) (round_bytes n))
   \<and> (can_extend sg k \<longrightarrow>
      extend_heap_seg k sg = merge_free_blocks_seg (mem_hi sg) (extended sg (round_bytes k))
      \<and> new_block_framed sg (extended sg (round_bytes k)) (round_bytes k))"
proof (intro conjI impI)
  assume c: "can_extend st n"
  note f = can_extend_nat[OF c]
  have b8: "8 \<le> unat (round_bytes n)" using f(1,2) by (auto elim: dvdE)
  have l4: "4 \<le> unat (mem_hi st)" using f(5) by simp
  note e = extended_nat[OF b8 l4 f(6,9,7) refl]
  show "extend_heap n st = merge_free_blocks (mem_hi st) (extended st (round_bytes n))"
    using extend_heap_steps[OF f(1,2,3,4) refl f(5,6,7)] unfolding e f(9)[symmetric] .
  show "new_block_framed st (extended st (round_bytes n)) (round_bytes n)"
    using framed_after_writes[OF b8 f(8) f(5,6,9) refl] unfolding e .
next
  assume c: "can_extend sg k"
  note f = can_extend_nat[OF c]
  have b8: "8 \<le> unat (round_bytes k)" using f(1,2) by (auto elim: dvdE)
  have l4: "4 \<le> unat (mem_hi sg)" using f(5) by simp
  note e = extended_nat[OF b8 l4 f(6,9,7) refl]
  show "extend_heap_seg k sg = merge_free_blocks_seg (mem_hi sg) (extended sg (round_bytes k))"
    using extend_heap_seg_steps[OF f(1,2,3,4) refl f(5,6,7)] unfolding e f(9)[symmetric] .
  show "new_block_framed sg (extended sg (round_bytes k)) (round_bytes k)"
    using framed_after_writes[OF b8 f(8) f(5,6,9) refl] unfolding e .
qed

lemma merge_extended_initial:
  "merge_free_blocks 0x1018 (extended (initial 0x1000 0x2000) 16)
     = Some (0x1018, (extended (initial 0x1000 0x2000) 16)\<lparr>free_blks := 0x1018\<rparr>)"
  apply (simp add: merge_free_blocks_def insert_free_block_def extended_def initial_def fresh_def hw_def eval_defs)
  apply (simp add: store32_def fun_eq_iff)
  done

lemma merge_extended_initial_seg:
  "merge_free_blocks_seg 0x1018 (extended (initial_seg 0x1000 0x2000) 16)
     = Some (0x1018, (extended (initial_seg 0x1000 0x2000) 16)\<lparr>free_blks_seg := (\<lambda>_. 0)(0 := 0x1018)\<rparr>)"
  apply (simp add: merge_free_blocks_seg_def insert_free_block_seg_def xor_prealloc_seg_def extended_def initial_seg_def fresh_seg_def hw_def eval_defs)
  apply (simp add: get_level_def get_level_from.simps max_level_def threshold_def)
  apply (simp add: store32_def fun_eq_iff)
  done

theorem extend_heap_frames_new_block_witness:
  "can_extend (initial 0x1000 0x2000) 4 \<and> can_extend (initial_seg 0x1000 0x2000) 3
   \<and> round_bytes 4 = 16 \<and> round_bytes 3 = 16
   \<and> extend_heap 4 (initial 0x1000 0x2000)
        = Some (0x1018, (extended (initial 0x1000 0x2000) 16)\<lparr>free_blks := 0x1018\<rparr>)
   \<and> new_block_framed (initial 0x1000 0x2000) (extended (initial 0x1000 0x2000) 16) 16
   \<and> extend_heap_seg 3 (initial_seg 0x1000 0x2000)
        = Some (0x1018, (extended (initial_seg 0x1000 0x2000) 16)
                          \<lparr>free_blks_seg := (\<lambda>_. 0)(0 := 0x1018)\<rparr>)
   \<and> new_block_framed (initial_seg 0x1000 0x2000) (extended (initial_seg 0x1000 0x2000) 16) 16"
proof -
  have c1: "can_extend (initial 0x1000 0x2000) 4"
    by (simp add: can_extend_def round_bytes_def initial_def fresh_def WSIZE_def)
  have c2: "can_extend (initial_seg 0x1000 0x2000) 3"
    by (simp add: can_extend_def round_bytes_def initial_seg_def fresh_seg_def WSIZE_def)
  have r: "round_bytes 4 = 16" "round_bytes 3 = 16" by (simp_all add: round_bytes_def WSIZE_def)
  have h: "mem_hi (initial 0x1000 0x2000) = 0x1018" "mem_hi (initial_seg 0x1000 0x2000) = 0x1018"
    by (simp_all add: initial_def initial_seg_def)
  show ?thesis
    using extend_heap_frames_new_block[of "initial 0x1000 0x2000" 4 "initial_seg 0x1000 0x2000" 3] c1 c2
    by (simp add: r h merge_extended_initial merge_extended_initial_seg)
qed

text \<open>
  Claim C5 as stated fails for an extension of 4 GiB or more. \<^verbatim>\<open>_extend_heap(0x40000002)\<close>
  asks the provider for \<open>0x100000008\<close> bytes, which succeeds here; the header keeps the low
  32 bits of the byte count, so its size field is 8, the footer and the epilogue are placed
  8 bytes after the header instead of at the end of the region (\<^verbatim>\<open>heap_end\<close> is \<open>0x101C\<close>,
  the last word of the region is at \<open>0x10000101C\<close>), and the coalescer's list links then
  overwrite both: the word at \<^verbatim>\<open>heap_end\<close> is 0, it is no epilogue.
\<close>

theorem extend_heap_4GiB_counterexample:
  "round_bytes 0x40000002 = 0x100000008
   \<and> mem_sbrk 0x100000008 (initial 0x1000 0x200001000)
        = (0x1018, (initial 0x1000 0x200001000)\<lparr>mem_hi := 0x100001020\<rparr>)
   \<and> extend_heap 0x40000002 (initial 0x1000 0x200001000) = Some (0x1018, wrapped_extension)
   \<and> GET_SIZE wrapped_extension 0x1014 = Some 8
   \<and> heap_end wrapped_extension = 0x101C
   \<and> mem_hi wrapped_extension - WSIZE = 0x10000101C
   \<and> READ wrapped_extension (heap_end wrapped_extension) = Some 0"
proof -
  have r: "round_bytes 0x40000002 = 0x100000008" by (simp add: round_bytes_def WSIZE_def)
  have s: "mem_sbrk 0x100000008 (initial 0x1000 0x200001000)
        = (0x1018, (initial 0x1000 0x200001000)\<lparr>mem_hi := 0x100001020\<rparr>)"
    by (simp add: mem_sbrk_def initial_def fresh_def)
  have e: "extend_heap 0x40000002 (initial 0x1000 0x200001000) = Some (0x1018, wrapped_extension)"
    unfolding extend_heap_def round_bytes_def[symmetric] r Let_def s
    apply (simp add: initial_def fresh_def eval_defs)
    apply (simp add: merge_free_blocks_def insert_free_block_def eval_defs)
    apply (simp add: wrapped_extension_def store32_def fun_eq_iff)
    done
  have g: "GET_SIZE wrapped_extension 0x1014 = Some 8"
    by (simp add: wrapped_extension_def eval_defs)
  have z: "READ wrapped_extension (heap_end wrapped_extension) = Some 0"
    by (simp add: wrapped_extension_def eval_defs) (simp add: load32_def)
  show ?thesis using r s e g z by (simp add: wrapped_extension_def WSIZE_def)
qed



lemmas macro_defs = READ_def WRITE_def mapped_def GET_SIZE_def GET_ALLOC_def GET_PREALLOC_def
  SET_PREALLOC_def RESET_PREALLOC_def GET_HEADER_def GET_FOOTER_def PRED_FOOTER_def SUCC_HEADER_def
  PRED_BLK_def SUCC_BLK_def PRED_FREE_def SUCC_FREE_def SET_PRED_FREE_def SET_SUCC_FREE_def
  WSIZE_def DSIZE_def ESIZE_def PACK_def MAX_of_def MIN_of_def mem_sbrk_def

lemmas ld = load32_store32_other load32_store32_same far_def

lemma allocate_loop_null: "allocate_loop st sz 0 b bs f n = Some b"
  by (subst allocate_loop.simps) simp

lemma mm_init_fresh_1000: "mm_init (fresh 0x1000 0x1028) = Some (0, initial 0x1000 0x1028)"
  by (simp add: mm_init_def fresh_def initial_def macro_defs Let_def)
     (simp add: store32_def fun_eq_iff)

lemma mm_init_fresh_2000: "mm_init (fresh 0x1000 0x2000) = Some (0, initial 0x1000 0x2000)"
  by (simp add: mm_init_def fresh_def initial_def macro_defs Let_def)
     (simp add: store32_def fun_eq_iff)

lemma malloc_one_block_full: "mm_malloc 1 (initial 0x1000 0x1028) = Some (0x1018, one_block 0x1028)"
  apply (simp add: mm_malloc_def allocate_def allocate_loop_null initial_def fresh_def macro_defs Let_def extend_heap_def)
  apply (simp add: merge_free_blocks_def build_def insert_free_block_def delete_free_block_def macro_defs ld)
  apply (simp add: one_block_def store32_def fun_eq_iff)
  done

lemma malloc_one_block: "mm_malloc 2 (initial 0x1000 0x2000) = Some (0x1018, one_block 0x2000)"
  apply (simp add: mm_malloc_def allocate_def allocate_loop_null initial_def fresh_def macro_defs Let_def extend_heap_def)
  apply (simp add: merge_free_blocks_def build_def insert_free_block_def delete_free_block_def macro_defs ld)
  apply (simp add: one_block_def store32_def fun_eq_iff)
  done

lemma malloc_full: "mm_malloc 100 (one_block 0x1028) = Some (0, one_block 0x1028)"
  by (simp add: mm_malloc_def allocate_def allocate_loop_null one_block_def macro_defs Let_def extend_heap_def)

lemma null_header_unmapped: "READ (one_block 0x1028) (GET_HEADER 0) = None"
  by (simp add: one_block_def macro_defs)

lemma realloc_full: "mm_realloc 0x1018 100 (one_block 0x1028) = None"
  using malloc_full null_header_unmapped
  by (simp add: mm_realloc_def GET_SIZE_def)

lemma calloc_full: "mm_calloc 100 1 (one_block 0x1028) = None"
  using malloc_full
  by (simp add: mm_calloc_def memset_def) (simp add: one_block_def mapped_def)

text \<open>
  Claim C1 (the code breaks it). When \<^verbatim>\<open>mem_sbrk\<close> fails, \<^verbatim>\<open>malloc\<close> returns null, but
  \<^verbatim>\<open>realloc\<close> and \<^verbatim>\<open>calloc\<close> use the null result of \<^verbatim>\<open>malloc\<close> without a test:
  \<^verbatim>\<open>realloc\<close> reads the header of the null pointer and \<^verbatim>\<open>calloc\<close> fills memory from
  address 0. On the full heap reached by \<^verbatim>\<open>mm_init\<close> and \<^verbatim>\<open>malloc(1)\<close> with 40 bytes of
  address space, \<^verbatim>\<open>malloc(100)\<close> returns null and leaves the heap as it is, the header of
  the null pointer is not mapped, and \<^verbatim>\<open>realloc(p, 100)\<close> and \<^verbatim>\<open>calloc(100, 1)\<close> do not
  return.
\<close>

theorem realloc_calloc_use_null_on_oom:
  "mm_init (fresh 0x1000 0x1028) = Some (0, initial 0x1000 0x1028)
   \<and> mm_malloc 1 (initial 0x1000 0x1028) = Some (0x1018, one_block 0x1028)
   \<and> mm_malloc 100 (one_block 0x1028) = Some (0, one_block 0x1028)
   \<and> READ (one_block 0x1028) (GET_HEADER 0) = None
   \<and> mm_realloc 0x1018 100 (one_block 0x1028) = None
   \<and> mm_calloc 100 1 (one_block 0x1028) = None"
  by (simp add: mm_init_fresh_1000 malloc_one_block_full malloc_full null_header_unmapped realloc_full
        calloc_full)

subsection \<open>The product of \<^verbatim>\<open>calloc\<close> wraps\<close>

lemma wrapped_product: "((2::size_t) ^ 63 + 1) * 2 = 2"
  by simp

lemma calloc_wrapped:
  "mm_calloc (2 ^ 63 + 1) 2 (initial 0x1000 0x2000) = Some (0x1018, one_block 0x2000)"
  unfolding mm_calloc_def wrapped_product Let_def
  apply (simp add: malloc_one_block)
  apply (simp add: memset_def one_block_def mapped_def)
  apply (simp add: store32_def fun_eq_iff)
  done

lemma mult_wraps: "(m::size_t) * n = of_nat (unat m * unat n mod 2 ^ 64)"
  by (simp add: word_unat_eq_iff unat_of_nat unat_word_ariths)

text \<open>
  Claim C9. \<^verbatim>\<open>calloc(m, n)\<close> asks \<^verbatim>\<open>malloc\<close> (and then \<^verbatim>\<open>memset\<close>) for the product
  \<open>m * n\<close> reduced modulo \<open>2^64\<close>, without any overflow check. For \<open>m = 2^63 + 1\<close> and
  \<open>n = 2\<close> the mathematical product is \<open>2^64 + 2\<close>, the request is 2 bytes, and on the heap
  right after \<^verbatim>\<open>mm_init\<close> the call returns the non-null pointer \<open>0x1018\<close> to a block of 16
  bytes, whose payload capacity of 12 bytes is smaller than the product.
\<close>

theorem calloc_product_wraps:
  "(\<forall>m n st. mm_calloc m n st =
       do { (p, s) \<leftarrow> mm_malloc (of_nat (unat m * unat n mod 2 ^ 64)) st;
            s \<leftarrow> memset p 0 (of_nat (unat m * unat n mod 2 ^ 64)) s;
            Some (p, s) })
   \<and> unat (2 ^ 63 + 1 :: size_t) * unat (2 :: size_t) = 2 ^ 64 + 2
   \<and> mm_init (fresh 0x1000 0x2000) = Some (0, initial 0x1000 0x2000)
   \<and> mm_calloc (2 ^ 63 + 1) 2 (initial 0x1000 0x2000) = Some (0x1018, one_block 0x2000)
   \<and> GET_SIZE (one_block 0x2000) (GET_HEADER 0x1018) = Some 16"
proof -
  have a: "\<forall>m n st. mm_calloc m n st =
       do { (p, s) \<leftarrow> mm_malloc (of_nat (unat m * unat n mod 2 ^ 64)) st;
            s \<leftarrow> memset p 0 (of_nat (unat m * unat n mod 2 ^ 64)) s;
            Some (p, s) }"
    unfolding mm_calloc_def Let_def mult_wraps[symmetric] by simp
  have b: "unat (2 ^ 63 + 1 :: size_t) * unat (2 :: size_t) = 2 ^ 64 + 2" by simp
  have c: "GET_SIZE (one_block 0x2000) (GET_HEADER 0x1018) = Some 16"
    by (simp add: one_block_def macro_defs ld)
  show ?thesis using a b c mm_init_fresh_2000 calloc_wrapped by blast
qed



subsection \<open>The best-so-far accumulator\<close>

lemma foldl_pick_first_min:
  "fst acc \<noteq> 0 \<Longrightarrow> list_all (\<lambda>b. fst b \<noteq> 0) xs \<Longrightarrow> fst (foldl pick acc xs) = first_min (acc # xs)"
proof (induction xs arbitrary: acc)
  case Nil
  then show ?case by simp
next
  case (Cons x xs)
  have x0: "fst x \<noteq> 0" and xs0: "list_all (\<lambda>b. fst b \<noteq> 0) xs" using Cons.prems(2) by simp_all
  show ?case
  proof (cases "snd x < snd acc")
    case True
    then have p: "pick acc x = x" by (simp add: pick_def)
    have "\<not> snd acc \<le> snd x" using True by (simp add: linorder_not_le)
    then have "first_min (acc # x # xs) = first_min (x # xs)" by simp
    then show ?thesis using Cons.IH[OF x0 xs0] p by simp
  next
    case False
    then have p: "pick acc x = acc" using Cons.prems(1) by (simp add: pick_def)
    have le: "snd acc \<le> snd x" using False by simp
    have "first_min (acc # x # xs) = first_min (acc # xs)"
    proof (cases "list_all (\<lambda>c. snd acc \<le> snd c) xs")
      case True
      then show ?thesis using le by simp
    next
      case False
      then obtain c where c: "c \<in> set xs" "\<not> snd acc \<le> snd c" by (auto simp: list_all_iff)
      then have "\<not> snd x \<le> snd c" using le by auto
      then have "\<not> list_all (\<lambda>c. snd x \<le> snd c) xs" using c(1) by (auto simp: list_all_iff)
      then show ?thesis using False by simp
    qed
    then show ?thesis using Cons.IH[OF Cons.prems(1) xs0] p by simp
  qed
qed

lemma foldl_pick_null:
  "list_all (\<lambda>b. fst b \<noteq> 0) xs \<Longrightarrow> fst (foldl pick (0, s) xs) = first_min xs"
proof (cases xs)
  case Nil
  then show ?thesis by simp
next
  case (Cons x xs')
  assume a: "list_all (\<lambda>b. fst b \<noteq> 0) xs"
  have "foldl pick (0, s) xs = foldl pick x xs'" by (simp add: Cons pick_def)
  moreover have "fst (foldl pick x xs') = first_min (x # xs')"
    using a Cons by (intro foldl_pick_first_min) simp_all
  ultimately show ?thesis by (simp add: Cons)
qed

lemma chain_nonnull: "chain st p bl \<Longrightarrow> list_all (\<lambda>b. fst b \<noteq> 0) bl"
  by (induction bl arbitrary: p) (auto split: option.splits)

lemma list_all_filter: "list_all P xs \<Longrightarrow> list_all P (filter Q xs)"
  by (simp add: list_all_iff)

lemma list_all_take: "list_all P xs \<Longrightarrow> list_all P (take n xs)"
  by (auto simp: list_all_iff dest: in_set_takeD)

lemma nfit_cut_all: "list_all P bl \<Longrightarrow> list_all P (nfit_cut sz n found bl)"
  by (induction bl arbitrary: n found) auto

subsection \<open>The search of \<^verbatim>\<open>mm.c\<close>\<close>

lemma allocate_loop_chain:
  "chain st p bl \<Longrightarrow> 0 \<le> fc \<Longrightarrow> fc < 6 \<Longrightarrow> 0 \<le> nc \<Longrightarrow>
   allocate_loop st sz p best bsz fc nc =
     Some (fst (foldl pick (best, bsz)
                  (take (nat (6 - fc)) (filter (fits sz) (nfit_cut sz (nat nc) (fc \<noteq> 0) bl)))))"
proof (induction bl arbitrary: p best bsz fc nc)
  case Nil
  then show ?case by (subst allocate_loop.simps) simp
next
  case (Cons b bl)
  from Cons.prems(1) obtain ns nx where
    p: "p \<noteq> 0" and ns: "GET_SIZE st (GET_HEADER p) = Some ns" and b: "b = (p, ucast ns)"
    and nx: "SUCC_FREE st p = Some nx" "chain st nx bl"
    by (cases b) (auto split: option.splits)
  show ?case
  proof (cases "fits sz b")
    case True
    then have f: "sz \<le> ucast ns" by (simp add: fits_def b)
    have pk: "(if best = 0 \<or> (ucast ns :: size_t) < bsz then (p, ucast ns) else (best, bsz)) = pick (best, bsz) b"
      by (simp add: pick_def b)
    show ?thesis
    proof (cases "fc + 1 = 6")
      case True
      then have n1: "nat (6 - fc) = Suc 0" by simp
      show ?thesis
        apply (subst allocate_loop.simps)
        using p ns f True \<open>fits sz b\<close>
        apply (simp add: Let_def MAX_FIT_def pk n1 b split: prod.splits)
        done
    next
      case False
      then have lt: "fc + 1 < 6" "0 \<le> fc + 1" using Cons.prems by simp_all
      have n1: "nat (6 - fc) = Suc (nat (6 - (fc + 1)))" using lt by simp
      have ne: "fc + 1 \<noteq> 0" using Cons.prems(2) by simp
      have ih: "\<And>b1 s1. allocate_loop st sz nx b1 s1 (fc + 1) nc =
          Some (fst (foldl pick (b1, s1) (take (nat (6 - (fc + 1))) (filter (fits sz) (nfit_cut sz (nat nc) True bl)))))"
        using Cons.IH[OF nx(2) lt(2) lt(1) Cons.prems(4)] ne by simp
      show ?thesis
        apply (subst allocate_loop.simps)
        using p ns f False \<open>fits sz b\<close> nx(1)
        apply (simp add: Let_def MAX_FIT_def n1 ih b pick_def)
        done
    qed
  next
    case False
    then have f: "\<not> sz \<le> ucast ns" by (simp add: fits_def b)
    show ?thesis
    proof (cases "nc + 1 > 28 \<and> fc \<noteq> 0")
      case True
      then have c: "28 < nat nc + 1" using Cons.prems(4) by auto
      show ?thesis
        apply (subst allocate_loop.simps)
        using p ns f True False c
        apply (simp add: Let_def MAX_NFIT_def b)
        done
    next
      case False
      then have c: "\<not> (28 < nat nc + 1 \<and> fc \<noteq> 0)" using Cons.prems(4) by auto
      have nn: "nat (nc + 1) = nat nc + 1" using Cons.prems(4) by simp
      have ih: "allocate_loop st sz nx best bsz fc (nc + 1) =
          Some (fst (foldl pick (best, bsz) (take (nat (6 - fc)) (filter (fits sz) (nfit_cut sz (nat nc + 1) (fc \<noteq> 0) bl)))))"
        using Cons.IH[OF nx(2) Cons.prems(2,3), of "nc + 1" best bsz] Cons.prems(4) nn by simp
      show ?thesis
        apply (subst allocate_loop.simps)
        using p ns f False \<open>\<not> fits sz b\<close> c nx(1) Cons.prems(4)
        apply (auto simp add: Let_def MAX_NFIT_def ih b)
        done
    qed
  qed
qed

lemma allocate_chain:
  assumes "chain st (free_blks st) bl"
  shows "allocate sz st = Some (first_min (take 6 (filter (fits sz) (nfit_cut sz 0 False bl))))"
proof -
  have "list_all (\<lambda>b. fst b \<noteq> 0) (take 6 (filter (fits sz) (nfit_cut sz 0 False bl)))"
    using chain_nonnull[OF assms] by (intro list_all_take list_all_filter nfit_cut_all)
  then show ?thesis
    using allocate_loop_chain[OF assms, of 0 0 sz 0 0]
    by (simp add: allocate_def foldl_pick_null)
qed


subsection \<open>The search of the first version\<close>

lemma allocate_loop_ft_chain:
  "chain st p bl \<Longrightarrow> 0 \<le> fc \<Longrightarrow> fc < 42 \<Longrightarrow>
   allocate_loop_ft st sz p best bsz fc =
     Some (fst (foldl pick (best, bsz) (take (nat (42 - fc)) (filter (fits sz) bl))))"
proof (induction bl arbitrary: p best bsz fc)
  case Nil
  then show ?case by (subst allocate_loop_ft.simps) simp
next
  case (Cons b bl)
  from Cons.prems(1) obtain ns nx where
    p: "p \<noteq> 0" and ns: "GET_SIZE st (GET_HEADER p) = Some ns" and b: "b = (p, ucast ns)"
    and nx: "SUCC_FREE st p = Some nx" "chain st nx bl"
    by (cases b) (auto split: option.splits)
  show ?case
  proof (cases "fits sz b")
    case True
    then have f: "sz \<le> ucast ns" by (simp add: fits_def b)
    show ?thesis
    proof (cases "fc + 1 = 42")
      case True
      then have n1: "nat (42 - fc) = Suc 0" by simp
      show ?thesis
        apply (subst allocate_loop_ft.simps)
        using p ns f True \<open>fits sz b\<close>
        apply (simp add: Let_def n1 b pick_def split: prod.splits)
        done
    next
      case False
      then have lt: "fc + 1 < 42" "0 \<le> fc + 1" using Cons.prems by simp_all
      have n1: "nat (42 - fc) = Suc (nat (42 - (fc + 1)))" using lt by simp
      have ih: "\<And>b1 s1. allocate_loop_ft st sz nx b1 s1 (fc + 1) =
          Some (fst (foldl pick (b1, s1) (take (nat (42 - (fc + 1))) (filter (fits sz) bl))))"
        using Cons.IH[OF nx(2) lt(2) lt(1)] by simp
      show ?thesis
        apply (subst allocate_loop_ft.simps)
        using p ns f False \<open>fits sz b\<close> nx(1)
        apply (simp add: Let_def n1 ih b pick_def)
        done
    qed
  next
    case False
    then have f: "\<not> sz \<le> ucast ns" by (simp add: fits_def b)
    have ih: "allocate_loop_ft st sz nx best bsz fc =
          Some (fst (foldl pick (best, bsz) (take (nat (42 - fc)) (filter (fits sz) bl))))"
      using Cons.IH[OF nx(2) Cons.prems(2,3)] by simp
    show ?thesis
      apply (subst allocate_loop_ft.simps)
      using p ns f False nx(1)
      apply (simp add: Let_def ih b)
      done
  qed
qed

lemma allocate_ft_chain:
  assumes "chain st (free_blks_ft st) bl"
  shows "allocate_ft sz st = Some (first_min (take 42 (filter (fits sz) bl)))"
proof -
  have "list_all (\<lambda>b. fst b \<noteq> 0) (take 42 (filter (fits sz) bl))"
    using chain_nonnull[OF assms] by (intro list_all_take list_all_filter)
  then show ?thesis
    using allocate_loop_ft_chain[OF assms, of 0 sz 0 0]
    by (simp add: allocate_ft_def foldl_pick_null)
qed

subsection \<open>The segregated search\<close>

lemma allocate_list_seg_chain:
  "chain st p bl \<Longrightarrow> 0 \<le> fc \<Longrightarrow> fc < 42 \<Longrightarrow>
   allocate_list_seg st sz p best bsz fc =
     (let taken = take (nat (42 - fc)) (filter (fits sz) bl);
          acc = foldl pick (best, bsz) taken
      in Some (fc + int (length taken) = 42, fst acc, snd acc, fc + int (length taken)))"
proof (induction bl arbitrary: p best bsz fc)
  case Nil
  then show ?case by (subst allocate_list_seg.simps) simp
next
  case (Cons b bl)
  from Cons.prems(1) obtain ns nx where
    p: "p \<noteq> 0" and ns: "GET_SIZE st (GET_HEADER p) = Some ns" and b: "b = (p, ucast ns)"
    and nx: "SUCC_FREE st p = Some nx" "chain st nx bl"
    by (cases b) (auto split: option.splits)
  show ?case
  proof (cases "fits sz b")
    case True
    then have f: "sz \<le> ucast ns" by (simp add: fits_def b)
    show ?thesis
    proof (cases "fc + 1 = 42")
      case True
      then have n1: "nat (42 - fc) = Suc 0" by simp
      show ?thesis
        apply (subst allocate_list_seg.simps)
        using p ns f True \<open>fits sz b\<close>
        apply (simp add: Let_def n1 b pick_def split: prod.splits)
        done
    next
      case False
      then have lt: "fc + 1 < 42" "0 \<le> fc + 1" using Cons.prems by simp_all
      have n1: "nat (42 - fc) = Suc (nat (42 - (fc + 1)))" using lt by simp
      have ih: "\<And>b1 s1. allocate_list_seg st sz nx b1 s1 (fc + 1) =
          Some (fc + 1 + int (length (take (nat (42 - (fc + 1))) (filter (fits sz) bl))) = 42,
                fst (foldl pick (b1, s1) (take (nat (42 - (fc + 1))) (filter (fits sz) bl))),
                snd (foldl pick (b1, s1) (take (nat (42 - (fc + 1))) (filter (fits sz) bl))),
                fc + 1 + int (length (take (nat (42 - (fc + 1))) (filter (fits sz) bl))))"
        using Cons.IH[OF nx(2) lt(2) lt(1)] by (simp add: Let_def)
      show ?thesis
        apply (subst allocate_list_seg.simps)
        using p ns f False \<open>fits sz b\<close> nx(1)
        apply (simp add: Let_def n1 ih b)
        apply (simp add: pick_def)
        done
    qed
  next
    case False
    then have f: "\<not> sz \<le> ucast ns" by (simp add: fits_def b)
    note ih = Cons.IH[OF nx(2) Cons.prems(2,3)]
    show ?thesis
      apply (subst allocate_list_seg.simps)
      using p ns f False nx(1)
      apply (simp add: Let_def ih b)
      done
  qed
qed

lemma first_min_in: "xs \<noteq> [] \<Longrightarrow> first_min xs \<in> fst ` set xs"
proof (induction xs)
  case Nil
  then show ?case by simp
next
  case (Cons x xs)
  show ?case
  proof (cases "list_all (\<lambda>c. snd x \<le> snd c) xs")
    case True
    then show ?thesis by simp
  next
    case False
    then have "xs \<noteq> []" by auto
    then show ?thesis using Cons.IH False by auto
  qed
qed

lemma first_min_nonnull: "list_all (\<lambda>b. fst b \<noteq> 0) xs \<Longrightarrow> xs \<noteq> [] \<Longrightarrow> first_min xs \<noteq> 0"
  using first_min_in[of xs] by (auto simp: list_all_iff)

lemma foldl_pick_snd_null: "snd (foldl pick (0, s) []) = s"
  by simp

lemma allocate_levels_seg_chain:
  assumes ch: "\<And>j. j \<le> max_level \<Longrightarrow> chain st (free_blks_seg st j) (bls j)"
  shows "allocate_levels_seg st sz i 0 s 0 =
           Some (first_min (take 42 (filter (fits sz) (seg_examined sz bls i))))"
proof (induction "max_level + 1 - i" arbitrary: i)
  case 0
  then have i: "\<not> i \<le> max_level" by simp
  show ?case
    by (subst allocate_levels_seg.simps, subst seg_examined.simps) (simp add: i)
next
  case (Suc n)
  then have i: "i \<le> max_level" by simp
  define taken where "taken = take 42 (filter (fits sz) (bls i))"
  have nn: "list_all (\<lambda>b. fst b \<noteq> 0) taken"
    unfolding taken_def using chain_nonnull[OF ch[OF i]] by (intro list_all_take list_all_filter)
  have inner: "allocate_list_seg st sz (free_blks_seg st i) 0 s 0 =
      Some (int (length taken) = 42, fst (foldl pick (0, s) taken), snd (foldl pick (0, s) taken), int (length taken))"
    using allocate_list_seg_chain[OF ch[OF i], of 0 sz 0 s] by (simp add: Let_def taken_def)
  have fm: "fst (foldl pick (0, s) taken) = first_min taken" using nn by (rule foldl_pick_null)
  show ?case
  proof (cases "taken = []")
    case True
    then have nofit: "filter (fits sz) (bls i) = []" by (simp add: taken_def)
    then have nex: "\<not> list_ex (fits sz) (bls i)" by (simp add: list_ex_iff filter_empty_conv)
    have ih: "allocate_levels_seg st sz (Suc i) 0 s 0 =
           Some (first_min (take 42 (filter (fits sz) (seg_examined sz bls (Suc i)))))"
      using Suc.hyps(1)[of "Suc i"] Suc.hyps(2) by simp
    have ex: "seg_examined sz bls i = bls i @ seg_examined sz bls (Suc i)"
      by (subst seg_examined.simps) (simp add: i nex)
    show ?thesis
      apply (subst allocate_levels_seg.simps)
      apply (simp add: i inner True ih ex nofit)
      done
  next
    case False
    then have "filter (fits sz) (bls i) \<noteq> []" by (auto simp: taken_def)
    then have ex1: "list_ex (fits sz) (bls i)" by (simp add: list_ex_iff filter_empty_conv)
    have ex: "seg_examined sz bls i = bls i"
      by (subst seg_examined.simps) (simp add: i ex1)
    have nz: "first_min taken \<noteq> 0" using nn False by (rule first_min_nonnull)
    show ?thesis
      apply (subst allocate_levels_seg.simps)
      apply (simp add: i inner fm nz ex taken_def[symmetric])
      done
  qed
qed

lemma allocate_seg_chain:
  assumes "\<And>j. j \<le> max_level \<Longrightarrow> chain st (free_blks_seg st j) (bls j)"
  shows "allocate_seg sz st =
           Some (first_min (take 42 (filter (fits sz) (seg_examined sz bls (get_level sz)))))"
  unfolding allocate_seg_def by (rule allocate_levels_seg_chain[OF assms])



subsection \<open>Reading a memory given by its words\<close>

lemma mem_of_byte:
  "unat (p - base) = 4 * i + j \<Longrightarrow> j < 4 \<Longrightarrow> i < length ws \<Longrightarrow>
   mem_of base ws p = ucast (drop_bit (8 * j) (ws ! i))"
  by (simp add: mem_of_def Let_def)

lemma unat_plus_small:
  fixes p base k :: addr
  assumes "unat (p - base) = n" "n + unat k < 2 ^ 64"
  shows "unat (p + k - base) = n + unat k"
proof -
  have e: "p + k - base = (p - base) + k" by simp
  show ?thesis unfolding e using assms unat_add_lem[of "p - base" k] by simp
qed

lemma load32_mem_of:
  assumes "unat (p - base) = 4 * i" "i < length ws" "length ws < 2 ^ 32"
  shows "load32 (mem_of base ws) p = ws ! i"
proof -
  have b0: "mem_of base ws p = ucast (drop_bit (8 * 0) (ws ! i))"
    using assms by (intro mem_of_byte) simp_all
  have b1: "mem_of base ws (p + 1) = ucast (drop_bit (8 * 1) (ws ! i))"
    using assms unat_plus_small[of p base "4 * i" 1] by (intro mem_of_byte) simp_all
  have b2: "mem_of base ws (p + 2) = ucast (drop_bit (8 * 2) (ws ! i))"
    using assms unat_plus_small[of p base "4 * i" 2] by (intro mem_of_byte) simp_all
  have b3: "mem_of base ws (p + 3) = ucast (drop_bit (8 * 3) (ws ! i))"
    using assms unat_plus_small[of p base "4 * i" 3] by (intro mem_of_byte) simp_all
  show ?thesis
    unfolding load32_def b0 b1 b2 b3 using bytes_join[of "ws ! i"] by simp
qed

lemma load32_mem_of_eval:
  "unat (p - base) mod 4 = 0 \<Longrightarrow> unat (p - base) div 4 < length ws \<Longrightarrow> length ws < 2 ^ 32 \<Longrightarrow>
   load32 (mem_of base ws) p = ws ! (unat (p - base) div 4)"
  by (rule load32_mem_of) auto


subsection \<open>The concrete free lists\<close>

lemma replicate_numeral: "replicate (numeral k) x = x # replicate (pred_numeral k) x"
  by (simp add: numeral_eq_Suc)

lemma heap7_words_eval:
  "heap7_words =
     [0, 17, 0, 0, 17, 18, 0, 40, 16, 17, 0, 0, 0, 18, 8, 72, 16, 17, 0, 0, 0, 18, 40, 104,
      16, 17, 0, 0, 0, 18, 72, 136, 16, 17, 0, 0, 0, 18, 104, 168, 16, 17, 0, 0, 0, 18, 136,
      200, 16, 17, 0, 0, 0, 18, 168, 232, 16, 17, 0, 0, 0, 18, 200, 264, 16, 17, 0, 0, 0, 18,
      232, 296, 16, 17, 0, 0, 0, 18, 264, 328, 16, 17, 0, 0, 0, 18, 296, 360, 16, 17, 0, 0,
      0, 18, 328, 392, 16, 17, 0, 0, 0, 18, 360, 424, 16, 17, 0, 0, 0, 18, 392, 456, 16, 17,
      0, 0, 0, 18, 424, 488, 16, 17, 0, 0, 0, 18, 456, 520, 16, 17, 0, 0, 0, 18, 488, 552,
      16, 17, 0, 0, 0, 18, 520, 584, 16, 17, 0, 0, 0, 18, 552, 616, 16, 17, 0, 0, 0, 18, 584,
      648, 16, 17, 0, 0, 0, 18, 616, 680, 16, 17, 0, 0, 0, 18, 648, 712, 16, 17, 0, 0, 0, 18,
      680, 744, 16, 17, 0, 0, 0, 18, 712, 776, 16, 17, 0, 0, 0, 18, 744, 808, 16, 17, 0, 0,
      0, 18, 776, 840, 16, 17, 0, 0, 0, 18, 808, 872, 16, 17, 0, 0, 0, 18, 840, 904, 16, 17,
      0, 0, 0, 66, 872, 984, 0, 0, 0, 0, 0, 0, 0, 0, 0, 0, 0, 0, 64, 17, 0, 0, 0, 18, 904,
      1016, 16, 17, 0, 0, 0, 34, 984, 0, 0, 0, 0, 0, 32, 17, 0, 0, 0, 3]"
  by (simp add: heap7_words_def free_block_def used_block_def upt_rec replicate_numeral)

lemma heap2_words_eval:
  "heap2_words =
     [0, 17, 0, 0, 17, 130, 0, 152, 0, 0, 0, 0, 0, 0, 0, 0, 0, 0, 0, 0, 0, 0, 0, 0, 0, 0, 0,
      0, 0, 0, 0, 0, 0, 0, 0, 0, 128, 17, 0, 0, 0, 122, 8, 288, 0, 0, 0, 0, 0, 0, 0, 0, 0, 0,
      0, 0, 0, 0, 0, 0, 0, 0, 0, 0, 0, 0, 0, 0, 0, 0, 120, 17, 0, 0, 0, 114, 152, 416, 0, 0,
      0, 0, 0, 0, 0, 0, 0, 0, 0, 0, 0, 0, 0, 0, 0, 0, 0, 0, 0, 0, 0, 0, 112, 17, 0, 0, 0,
      106, 288, 536, 0, 0, 0, 0, 0, 0, 0, 0, 0, 0, 0, 0, 0, 0, 0, 0, 0, 0, 0, 0, 0, 0, 104,
      17, 0, 0, 0, 98, 416, 648, 0, 0, 0, 0, 0, 0, 0, 0, 0, 0, 0, 0, 0, 0, 0, 0, 0, 0, 0, 0,
      96, 17, 0, 0, 0, 90, 536, 752, 0, 0, 0, 0, 0, 0, 0, 0, 0, 0, 0, 0, 0, 0, 0, 0, 0, 0,
      88, 17, 0, 0, 0, 82, 648, 0, 0, 0, 0, 0, 0, 0, 0, 0, 0, 0, 0, 0, 0, 0, 0, 0, 80, 17, 0,
      0, 0, 3]"
  by (simp add: heap2_words_def free_block_def used_block_def replicate_numeral)

lemma list7_head_eval:
  "list7_head =
     [(4120, 16), (4152, 16), (4184, 16), (4216, 16), (4248, 16), (4280, 16),
      (4312, 16), (4344, 16), (4376, 16), (4408, 16), (4440, 16), (4472, 16),
      (4504, 16), (4536, 16), (4568, 16), (4600, 16), (4632, 16), (4664, 16),
      (4696, 16), (4728, 16), (4760, 16), (4792, 16), (4824, 16), (4856, 16),
      (4888, 16), (4920, 16), (4952, 16), (4984, 16), (5016, 64)]"
  by (simp add: list7_head_def upt_rec)

lemmas chain_eval = GET_SIZE_def GET_HEADER_def SUCC_FREE_def READ_def mapped_def WSIZE_def
  load32_mem_of_eval

lemma chain_heap7: "chain heap7 (free_blks heap7) list7"
  unfolding list7_def list7_head_eval heap7_def
  by (simp add: chain_eval heap7_words_eval)

lemma chain_heap2: "chain heap2 0x1018 list2"
  unfolding list2_def heap2_def
  by (simp add: chain_eval heap2_words_eval)

lemma chain_heap_ft: "chain heap_ft (free_blks_ft heap_ft) [(0x1018, 4096)]"
  unfolding heap_ft_def
  by (simp add: chain_eval nth_append)



subsection \<open>Where the second stopping rule of \<^verbatim>\<open>mm.c\<close> cuts the list\<close>






lemma take_all_short: "length xs < n \<Longrightarrow> take n xs = xs"
  by simp








subsection \<open>The first stopping rule in the three versions\<close>

text \<open>
  Claim C2, as amended. The first stopping rule uses the bound 42 in the segregated
  version and in the first single-list version, and \<open>MAX_FIT = 6\<close> in the single-list
  version of \<^verbatim>\<open>mm.c\<close>. For every null-terminated free list and every request size, each
  search returns the first block of smallest size among the first 42 (in \<^verbatim>\<open>mm.c\<close>: 6)
  fitting blocks that it examines, in traversal order, and null when it examines no fit.
  The first version examines the whole list; \<^verbatim>\<open>mm.c\<close> examines the list up to the block
  where its second rule stops; the segregated version examines the lists of the classes
  from the class of the request upwards, up to and including the first class with a fit.
\<close>

theorem bounded_best_fit:
  "(chain st (free_blks st) bl \<longrightarrow>
      allocate sz st = Some (first_min (take 6 (filter (fits sz) (nfit_cut sz 0 False bl)))))
   \<and> (chain sf (free_blks_ft sf) bf \<longrightarrow>
      allocate_ft sz sf = Some (first_min (take 42 (filter (fits sz) bf))))
   \<and> ((\<forall>j\<le>max_level. chain sg (free_blks_seg sg j) (bls j)) \<longrightarrow>
      allocate_seg sz sg
        = Some (first_min (take 42 (filter (fits sz) (seg_examined sz bls (get_level sz))))))"
  using allocate_chain[of st bl sz] allocate_ft_chain[of sf bf sz] allocate_seg_chain[of sg bls sz]
  by blast

lemma get_level_72: "get_level 72 = 3"
  by (simp add: get_level_def get_level_from.simps max_level_def threshold_def)

lemma chains_heap2: "\<forall>j\<le>max_level. chain heap2 (free_blks_seg heap2 j) (((\<lambda>_. [])(3 := list2)) j)"
proof (intro allI impI)
  fix j
  show "chain heap2 (free_blks_seg heap2 j) (((\<lambda>_. [])(3 := list2)) j)"
  proof (cases "j = 3")
    case True
    then show ?thesis using chain_heap2 by (simp add: heap2_def del: chain.simps)
  next
    case False
    then show ?thesis by (simp add: heap2_def)
  qed
qed

lemma seg_examined_heap2: "seg_examined 72 ((\<lambda>_. [])(3 := list2)) 3 = list2"
  by (subst seg_examined.simps) (simp add: max_level_def list2_def fits_def)

lemma allocate_seg_heap2: "allocate_seg 72 heap2 = Some 0x1300"
proof -
  have "allocate_seg 72 heap2
          = Some (first_min (take 42 (filter (fits 72) (seg_examined 72 ((\<lambda>_. [])(3 := list2)) (get_level 72)))))"
    using chains_heap2 by (intro allocate_seg_chain) blast
  then show ?thesis by (simp add: get_level_72 seg_examined_heap2) (simp add: list2_def fits_def)
qed

theorem bounded_best_fit_witness:
  "chain heap7 (free_blks heap7) list7
   \<and> allocate 32 heap7 = Some 0x1398
   \<and> chain heap_ft (free_blks_ft heap_ft) [(0x1018, 4096)]
   \<and> allocate_ft 104 heap_ft = Some 0x1018
   \<and> chain heap2 (free_blks_seg heap2 3) list2
   \<and> free_blks_seg heap2 0 = 0 \<and> free_blks_seg heap2 17 = 0
   \<and> allocate_seg 72 heap2 = Some 0x1300"
proof -
  have a7: "allocate 32 heap7 = Some (first_min (take 6 (filter (fits 32) (nfit_cut 32 0 False list7))))"
    by (rule bounded_best_fit[THEN conjunct1, THEN mp]) (rule chain_heap7)
  have r7: "allocate 32 heap7 = Some 0x1398"
    using a7 by (simp add: list7_def list7_head_eval fits_def)
  have af: "allocate_ft 104 heap_ft = Some (first_min (take 42 (filter (fits 104) [(0x1018, 4096)])))"
    by (rule bounded_best_fit[THEN conjunct2, THEN conjunct1, THEN mp]) (rule chain_heap_ft)
  have rf: "allocate_ft 104 heap_ft = Some 0x1018" using af by (simp add: fits_def)
  have ag: "allocate_seg 72 heap2
          = Some (first_min (take 42 (filter (fits 72) (seg_examined 72 ((\<lambda>_. [])(3 := list2)) (get_level 72)))))"
    by (rule bounded_best_fit[THEN conjunct2, THEN conjunct2, THEN mp]) (rule chains_heap2)
  have rg: "allocate_seg 72 heap2 = Some 0x1300"
    using ag by (simp add: get_level_72 seg_examined_heap2) (simp add: list2_def fits_def)
  have c2: "chain heap2 (free_blks_seg heap2 3) list2"
    using chain_heap2 by (simp add: heap2_def del: chain.simps)
  have z: "free_blks_seg heap2 0 = 0" "free_blks_seg heap2 17 = 0" by (simp_all add: heap2_def)
  show ?thesis
    using chain_heap7 r7 chain_heap_ft rf c2 z rg by blast
qed

text \<open>
  Claim C2 as stated fails for the segregated version, whose bound is 42 and not 6. The
  list of class 3 of \<open>heap2\<close> holds blocks of 128, 120, 112, 104, 96, 88 and 80 bytes, in
  this order; all seven fit a request of 72 bytes, which belongs to class 3. The smallest
  among the first six is the block of 88 bytes at \<open>0x1298\<close>; the search returns the seventh,
  the block of 80 bytes at \<open>0x1300\<close>.
\<close>

theorem bounded_best_fit_counterexample:
  "chain heap2 (free_blks_seg heap2 3) list2
   \<and> get_level 72 = 3
   \<and> length (filter (fits 72) list2) = 7
   \<and> first_min (take 6 (filter (fits 72) list2)) = 0x1298
   \<and> allocate_seg 72 heap2 = Some 0x1300"
proof -
  have c: "chain heap2 (free_blks_seg heap2 3) list2"
    using chain_heap2 by (simp add: heap2_def del: chain.simps)
  have l: "length (filter (fits 72) list2) = 7" by (simp add: list2_def fits_def)
  have f: "first_min (take 6 (filter (fits 72) list2)) = 0x1298" by (simp add: list2_def fits_def)
  show ?thesis using c get_level_72 l f allocate_seg_heap2 by blast
qed



subsection \<open>The split of \<^verbatim>\<open>_build\<close>\<close>

lemma PACK_pa_1: "sz < 2^32 \<Longrightarrow> PACK (A sz) (ucast (w AND 2 :: uint) OR 1) = hw sz (bit w 1) True"
  using PACK_hw[of sz True True] PACK_hw[of sz False True]
  by (cases "bit w 1") (simp_all add: and2_cases A_def)

lemma size_of_word:
  fixes w :: uint
  defines "bs \<equiv> unat (w AND NOT 7)"
  shows "w AND NOT 7 = of_nat bs" "bs < 2^32" "8 dvd bs" "w AND - 8 = of_nat bs"
proof -
  show a: "w AND NOT 7 = of_nat bs" by (simp add: bs_def)
  show "bs < 2^32" using unsigned_less[of "w AND NOT 7", where 'a=nat] by (simp add: bs_def)
  have "(w AND NOT 7) AND mask 3 = 0"
    by (rule bit_word_eqI) (auto simp add: seven_mask bit_simps)
  then show "8 dvd bs" using and_mask_dvd_nat[of 3 "w AND NOT 7"] by (simp add: bs_def)
  show "w AND - 8 = of_nat bs" using a by simp
qed

lemma build_split_steps:
  fixes st :: mm
  assumes del: "delete_free_block (A p) st = Some st1"
    and lo: "unat (mem_lo st1) + 4 \<le> p" and hi: "p + bs \<le> unat (mem_hi st1) + 4"
    and w: "w = rd st1 (p - 4)" and bs: "bs = unat (w AND NOT 7)"
    and s8: "8 dvd s" and s1: "8 \<le> s" and s2: "s + 16 < bs"
  shows "build (A p) (A s) st =
           merge_free_blocks (A (p + s))
             (wr (p + bs - 8) (hw (bs - s) False False)
               (wr (p + s - 4) (hw (bs - s) True False)
                 (wr (p + s - 8) (hw s False True)
                   (wr (p - 4) (hw s (bit w 1) True) st1))))
           \<bind> (\<lambda>(_, st). Some st)"
proof -
  note sw = size_of_word[of w, folded bs]
  have h64: "p + bs - 4 < 2^64" "p + s + 12 < 2^64" "p < 2^64"
    using hi s2 unat_lt64[of "mem_hi st1"] by simp_all
  have p0: "A p \<noteq> 0" using lo h64 by (simp add: A_eq_0)
  have s32: "s < 2^32" "bs - s < 2^32" using sw(2) s2 by simp_all
  have d8: "8 dvd (bs - s)" using sw(3) s8 s2 by (simp add: dvd_diff_nat)
  have ih: "\<And>x. inheap st1 x \<longleftrightarrow> unat (mem_lo st1) \<le> x \<and> x + 4 \<le> unat (mem_hi st1)"
    by (simp add: inheap_def)
  have i1: "inheap st1 (p - 4)" "inheap st1 (p + s - 8)" "inheap st1 (p + s - 4)"
    "inheap st1 (p + bs - 8)"
    using lo hi s1 s2 unfolding inheap_def by arith+
  have gh: "GET_HEADER (A p) = A (p - 4)" using lo by (simp add: GET_HEADER_A)
  have g1: "GET_SIZE st1 (GET_HEADER (A p)) = Some (of_nat bs)"
    using lo hi s2 by (simp add: gh GET_SIZE_A ih w[symmetric] sw(4))
  have g2: "GET_PREALLOC st1 (GET_HEADER (A p)) = Some (w AND 2)"
    using lo hi s2 by (simp add: gh GET_PREALLOC_A ih w[symmetric])
  have cnd: "(ucast (of_nat bs :: uint) :: size_t) - A s > ESIZE"
  proof -
    have "(ucast (of_nat bs :: uint) :: size_t) - A s = A (bs - s)"
      using sw(2) s2 by (simp add: ucast_of_nat32 A_def)
    moreover have "unat (A (bs - s)) = bs - s" using s32 by (simp add: unat_A)
    ultimately show ?thesis using s2 by (simp add: ESIZE_def DSIZE_def word_less_nat_alt)
  qed
  have bl: "(ucast (of_nat bs :: uint) :: size_t) - A s = A (bs - s)"
    using sw(2) s2 by (simp add: ucast_of_nat32 A_def)
  define st2 where "st2 = wr (p - 4) (hw s (bit w 1) True) st1"
  define st3 where "st3 = wr (p + s - 8) (hw s False True) st2"
  define st4 where "st4 = wr (p + s - 4) (hw (bs - s) True False) st3"
  define st5 where "st5 = wr (p + bs - 8) (hw (bs - s) False False) st4"
  have w1: "WRITE (GET_HEADER (A p)) (PACK (A s) (ucast (w AND 2) OR 1)) st1 = Some st2"
    using i1 s32 by (simp add: gh WRITE_A st2_def PACK_pa_1)
  have f2: "GET_FOOTER st2 (A p) = Some (A (p + s - 8))"
    by (rule GET_FOOTER_A[where sz=s and pa="bit w 1" and al=True])
       (use lo hi s2 s8 s1 s32 in \<open>simp_all add: st2_def ih\<close>)
  have w2: "WRITE (A (p + s - 8)) (PACK (A s) 1) st2 = Some st3"
    using i1 s32 by (simp add: WRITE_A st2_def st3_def PACK_A)
  have r3: "rd st3 (p - 4) = hw s (bit w 1) True"
    using lo s1 h64 s2 by (simp add: st3_def st2_def rd_wr_gt)
  have sb3: "SUCC_BLK st3 (A p) = Some (A (p + s))"
    by (rule SUCC_BLK_A[where sz=s and pa="bit w 1" and al=True])
       (use lo hi s2 s8 s32 r3 in \<open>simp_all add: st3_def st2_def ih\<close>)
  have gh2: "GET_HEADER (A (p + s)) = A (p + s - 4)" using lo by (simp add: GET_HEADER_A)
  have w3: "WRITE (GET_HEADER (A (p + s))) (PACK (A (bs - s)) 2) st3 = Some st4"
    using i1 s32 by (simp add: gh2 WRITE_A st3_def st2_def st4_def PACK_A)
  have f4: "GET_FOOTER st4 (A (p + s)) = Some (A (p + s + (bs - s) - 8))"
    by (rule GET_FOOTER_A[where sz="bs - s" and pa=True and al=False])
       (use lo hi s2 s1 s32 d8 in \<open>simp_all add: st4_def st3_def st2_def ih\<close>)
  have f4': "GET_FOOTER st4 (A (p + s)) = Some (A (p + bs - 8))" using f4 s2 by simp
  have w4: "WRITE (A (p + bs - 8)) (PACK (A (bs - s)) 0) st4 = Some st5"
    using i1 s32 by (simp add: WRITE_A st4_def st3_def st2_def st5_def PACK_A)
  show ?thesis
    unfolding build_def
    using p0 del g1 g2 cnd w1 f2 w2 sb3 w3 f4' w4
    by (simp add: Let_def bl A_def[symmetric])
       (simp add: st5_def st4_def st3_def st2_def)
qed

lemma build_seg_split_steps:
  fixes st :: seg
  assumes del: "delete_free_block_seg (A p) st = Some st1"
    and lo: "unat (mem_lo st1) + 4 \<le> p" and hi: "p + bs \<le> unat (mem_hi st1) + 4"
    and w: "w = rd st1 (p - 4)" and bs: "bs = unat (w AND NOT 7)"
    and s8: "8 dvd s" and s1: "8 \<le> s" and s2: "s + 16 < bs"
  shows "build_seg (A p) (A s) st =
           merge_free_blocks_seg (A (p + s))
             (wr (p + bs - 8) (hw (bs - s) False False)
               (wr (p + s - 4) (hw (bs - s) True False)
                 (wr (p + s - 8) (hw s False True)
                   (wr (p - 4) (hw s (bit w 1) True) st1))))
           \<bind> (\<lambda>(_, st). Some st)"
proof -
  note sw = size_of_word[of w, folded bs]
  have h64: "p + bs - 4 < 2^64" "p + s + 12 < 2^64" "p < 2^64"
    using hi s2 unat_lt64[of "mem_hi st1"] by simp_all
  have p0: "A p \<noteq> 0" using lo h64 by (simp add: A_eq_0)
  have s32: "s < 2^32" "bs - s < 2^32" using sw(2) s2 by simp_all
  have d8: "8 dvd (bs - s)" using sw(3) s8 s2 by (simp add: dvd_diff_nat)
  have ih: "\<And>x. inheap st1 x \<longleftrightarrow> unat (mem_lo st1) \<le> x \<and> x + 4 \<le> unat (mem_hi st1)"
    by (simp add: inheap_def)
  have i1: "inheap st1 (p - 4)" "inheap st1 (p + s - 8)" "inheap st1 (p + s - 4)"
    "inheap st1 (p + bs - 8)"
    using lo hi s1 s2 unfolding inheap_def by arith+
  have gh: "GET_HEADER (A p) = A (p - 4)" using lo by (simp add: GET_HEADER_A)
  have g1: "GET_SIZE st1 (GET_HEADER (A p)) = Some (of_nat bs)"
    using lo hi s2 by (simp add: gh GET_SIZE_A ih w[symmetric] sw(4))
  have g2: "GET_PREALLOC st1 (GET_HEADER (A p)) = Some (w AND 2)"
    using lo hi s2 by (simp add: gh GET_PREALLOC_A ih w[symmetric])
  have cnd: "(ucast (of_nat bs :: uint) :: size_t) - A s > ESIZE"
  proof -
    have "(ucast (of_nat bs :: uint) :: size_t) - A s = A (bs - s)"
      using sw(2) s2 by (simp add: ucast_of_nat32 A_def)
    moreover have "unat (A (bs - s)) = bs - s" using s32 by (simp add: unat_A)
    ultimately show ?thesis using s2 by (simp add: ESIZE_def DSIZE_def word_less_nat_alt)
  qed
  have bl: "(ucast (of_nat bs :: uint) :: size_t) - A s = A (bs - s)"
    using sw(2) s2 by (simp add: ucast_of_nat32 A_def)
  define st2 where "st2 = wr (p - 4) (hw s (bit w 1) True) st1"
  define st3 where "st3 = wr (p + s - 8) (hw s False True) st2"
  define st4 where "st4 = wr (p + s - 4) (hw (bs - s) True False) st3"
  define st5 where "st5 = wr (p + bs - 8) (hw (bs - s) False False) st4"
  have w1: "WRITE (GET_HEADER (A p)) (PACK (A s) (ucast (w AND 2) OR 1)) st1 = Some st2"
    using i1 s32 by (simp add: gh WRITE_A st2_def PACK_pa_1)
  have f2: "GET_FOOTER st2 (A p) = Some (A (p + s - 8))"
    by (rule GET_FOOTER_A[where sz=s and pa="bit w 1" and al=True])
       (use lo hi s2 s8 s1 s32 in \<open>simp_all add: st2_def ih\<close>)
  have w2: "WRITE (A (p + s - 8)) (PACK (A s) 1) st2 = Some st3"
    using i1 s32 by (simp add: WRITE_A st2_def st3_def PACK_A)
  have r3: "rd st3 (p - 4) = hw s (bit w 1) True"
    using lo s1 h64 s2 by (simp add: st3_def st2_def rd_wr_gt)
  have sb3: "SUCC_BLK st3 (A p) = Some (A (p + s))"
    by (rule SUCC_BLK_A[where sz=s and pa="bit w 1" and al=True])
       (use lo hi s2 s8 s32 r3 in \<open>simp_all add: st3_def st2_def ih\<close>)
  have gh2: "GET_HEADER (A (p + s)) = A (p + s - 4)" using lo by (simp add: GET_HEADER_A)
  have w3: "WRITE (GET_HEADER (A (p + s))) (PACK (A (bs - s)) 2) st3 = Some st4"
    using i1 s32 by (simp add: gh2 WRITE_A st3_def st2_def st4_def PACK_A)
  have f4: "GET_FOOTER st4 (A (p + s)) = Some (A (p + s + (bs - s) - 8))"
    by (rule GET_FOOTER_A[where sz="bs - s" and pa=True and al=False])
       (use lo hi s2 s1 s32 d8 in \<open>simp_all add: st4_def st3_def st2_def ih\<close>)
  have f4': "GET_FOOTER st4 (A (p + s)) = Some (A (p + bs - 8))" using f4 s2 by simp
  have w4: "WRITE (A (p + bs - 8)) (PACK (A (bs - s)) 0) st4 = Some st5"
    using i1 s32 by (simp add: WRITE_A st4_def st3_def st2_def st5_def PACK_A)
  show ?thesis
    unfolding build_seg_def
    using p0 del g1 g2 cnd w1 f2 w2 sb3 w3 f4' w4
    by (simp add: Let_def bl A_def[symmetric])
       (simp add: st5_def st4_def st3_def st2_def)
qed


lemma bind_snd: "(m \<bind> (\<lambda>(_, st). Some st)) = map_option snd m"
  by (cases m) auto

lemma can_split_nat:
  assumes c: "can_split st ptr sz"
    and pd: "p = unat ptr" and sd: "s = unat sz" and bd: "bs = block_size st ptr"
  shows "unat (mem_lo st) + 4 \<le> p" "p + bs \<le> unat (mem_hi st) + 4"
    "8 dvd s" "8 \<le> s" "s + 16 < bs" "ptr = A p" "sz = A s"
    "load32 (mem st) (ptr - WSIZE) = rd st (p - 4)"
    "bs = unat (rd st (p - 4) AND NOT 7)"
    "ptr - WSIZE = A (p - 4)" "ptr + sz - DSIZE = A (p + s - 8)"
    "ptr + sz - WSIZE = A (p + s - 4)" "ptr + of_nat bs - DSIZE = A (p + bs - 8)"
    "ptr + sz = A (p + s)"
proof -
  show c1: "unat (mem_lo st) + 4 \<le> p" and c2: "p + bs \<le> unat (mem_hi st) + 4"
    and "8 dvd s" and c4: "8 \<le> s" and c5: "s + 16 < bs"
    using c by (simp_all add: can_split_def pd sd bd)
  show a: "ptr = A p" "sz = A s" by (simp_all add: pd sd A_unat)
  have "A p - 4 = A (p - 4)" using c1 by (simp add: A_sub4)
  then show m: "ptr - WSIZE = A (p - 4)" unfolding a(1) WSIZE_def .
  show r: "load32 (mem st) (ptr - WSIZE) = rd st (p - 4)" unfolding m rd_def ..
  show "bs = unat (rd st (p - 4) AND NOT 7)" unfolding bd block_size_def r ..
  show s: "ptr + sz = A (p + s)" unfolding a A_add ..
  have "A (p + s) - 8 = A (p + s - 8)" using c4 by (simp add: A_sub8)
  then show "ptr + sz - DSIZE = A (p + s - 8)" unfolding s DSIZE_def .
  have "A (p + s) - 4 = A (p + s - 4)" using c4 by (simp add: A_sub4)
  then show "ptr + sz - WSIZE = A (p + s - 4)" unfolding s WSIZE_def .
  have b: "ptr + of_nat bs = A (p + bs)" unfolding a(1) by (simp add: A_def)
  have "A (p + bs) - 8 = A (p + bs - 8)" using c5 by (simp add: A_sub8)
  then show "ptr + of_nat bs - DSIZE = A (p + bs - 8)" unfolding b DSIZE_def .
qed

lemma split_written_nat:
  assumes c: "can_split st ptr sz"
  shows "split_written st ptr sz =
           wr (unat ptr + block_size st ptr - 8) (hw (block_size st ptr - unat sz) False False)
             (wr (unat ptr + unat sz - 4) (hw (block_size st ptr - unat sz) True False)
               (wr (unat ptr + unat sz - 8) (hw (unat sz) False True)
                 (wr (unat ptr - 4) (hw (unat sz) (bit (rd st (unat ptr - 4)) 1) True) st)))"
  unfolding split_written_def can_split_nat(10-13)[OF c refl refl refl]
  by (simp add: wr_def rd_def)

lemma split_framed_written:
  assumes c: "can_split st ptr sz"
  shows "split_framed st (split_written st ptr sz) ptr sz"
proof -
  note f = can_split_nat[OF c refl refl refl]
  let ?p = "unat ptr" and ?s = "unat sz" and ?bs = "block_size st ptr"
  have i1: "inheap st (?p - 4)" "inheap st (?p + ?s - 8)" "inheap st (?p + ?s - 4)"
    "inheap st (?p + ?bs - 8)"
    using f(1,2,4,5) unfolding inheap_def by arith+
  have h64: "?p + ?bs - 4 \<le> 2^64" using f(2) unat_lt64[of "mem_hi st"] by simp
  have r1: "rd (split_written st ptr sz) (?p - 4) = hw ?s (bit (rd st (?p - 4)) 1) True"
    unfolding split_written_nat[OF c] using f(1,4,5) h64 by (simp add: rd_wr_gt)
  have r2: "rd (split_written st ptr sz) (?p + ?s - 8) = hw ?s False True"
    unfolding split_written_nat[OF c] using f(1,4,5) h64 by (simp add: rd_wr_gt)
  have r3: "rd (split_written st ptr sz) (?p + ?s - 4) = hw (?bs - ?s) True False"
    unfolding split_written_nat[OF c] using f(1,4,5) h64 by (simp add: rd_wr_gt)
  have r4: "rd (split_written st ptr sz) (?p + ?bs - 8) = hw (?bs - ?s) False False"
    unfolding split_written_nat[OF c] by simp
  have i2: "\<And>x. inheap (split_written st ptr sz) x = inheap st x"
    unfolding split_written_nat[OF c] by simp
  show ?thesis
    unfolding split_framed_def f(10-13) f(8)
    using i1 r1 r2 r3 r4 by (simp add: READ_A i2) (simp add: rd_def)
qed


lemma load32_zero: "load32 (\<lambda>_. 0) a = 0"
  by (simp add: load32_def)

lemma delete_heap6: "delete_free_block 0x1018 heap6 = Some (heap6\<lparr>free_blks := 0\<rparr>)"
  by (simp add: delete_free_block_def heap6_def eval_defs load32_zero)

lemma delete_heap6_seg:
  "delete_free_block_seg 0x1018 heap6_seg = Some (heap6_seg\<lparr>free_blks_seg := (\<lambda>_. 0)\<rparr>)"
  apply (simp add: delete_free_block_seg_def heap6_seg_def heap6_def eval_defs load32_zero)
  apply (simp add: get_level_def get_level_from.simps max_level_def threshold_def)
  apply (simp add: fun_eq_iff)
  done

lemma block_size_heap6:
  "block_size (heap6\<lparr>free_blks := 0\<rparr>) 0x1018 = 48"
  "block_size (heap6_seg\<lparr>free_blks_seg := (\<lambda>_. 0)\<rparr>) 0x1018 = 48"
  by (simp_all add: block_size_def heap6_def heap6_seg_def eval_defs load32_zero)

lemma can_split_heap6:
  "can_split (heap6\<lparr>free_blks := 0\<rparr>) 0x1018 16"
  "can_split (heap6_seg\<lparr>free_blks_seg := (\<lambda>_. 0)\<rparr>) 0x1018 16"
  unfolding can_split_def block_size_heap6 by (simp_all add: heap6_def heap6_seg_def)

lemma merge_split_heap6:
  "merge_free_blocks 0x1028 (split_written (heap6\<lparr>free_blks := 0\<rparr>) 0x1018 16)
     = Some (0x1028, heap6_built)"
  unfolding split_written_def block_size_heap6
  apply (simp add: merge_free_blocks_def insert_free_block_def heap6_def heap6_built_def hw_def eval_defs load32_zero)
  apply (simp add: store32_def fun_eq_iff)
  done

lemma merge_split_heap6_seg:
  "merge_free_blocks_seg 0x1028 (split_written (heap6_seg\<lparr>free_blks_seg := (\<lambda>_. 0)\<rparr>) 0x1018 16)
     = Some (0x1028, heap6_seg_built)"
  unfolding split_written_def block_size_heap6
  apply (simp add: merge_free_blocks_seg_def insert_free_block_seg_def xor_prealloc_seg_def
      heap6_seg_def heap6_seg_built_def heap6_def heap6_built_def hw_def eval_defs load32_zero)
  apply (simp add: get_level_def get_level_from.simps max_level_def threshold_def)
  apply (simp add: store32_def fun_eq_iff)
  done

text \<open>
  Claim C6, as amended. When \<^verbatim>\<open>_build\<close> splits (both footerless versions; the block at
  \<open>ptr\<close> has left the free list, it lies in the heap, and it is more than \<open>sz + 16\<close> bytes
  long for a request \<open>sz\<close> that is a multiple of 8, at least 8), it hands to the coalescer,
  called with the remainder \<open>ptr + sz\<close>, the state \<open>split_written\<close>, and returns the
  coalescer's state. In that state four words have been written, not three: the header of
  the allocated part (size, PREV\_ALLOC kept, ALLOC = 1), a footer \<^verbatim>\<open>PACK(size, 1)\<close> in
  the last word of the allocated part (payload pointer plus \<open>sz - 8\<close>), the header of the
  free remainder (PREV\_ALLOC = 1, ALLOC = 0) and the footer of the remainder.
\<close>

theorem build_split_writes_four_words:
  "(delete_free_block ptr st = Some st1 \<and> can_split st1 ptr sz \<longrightarrow>
      build ptr sz st = map_option snd (merge_free_blocks (ptr + sz) (split_written st1 ptr sz))
      \<and> split_framed st1 (split_written st1 ptr sz) ptr sz)
   \<and> (delete_free_block_seg qtr sg = Some sg1 \<and> can_split sg1 qtr k \<longrightarrow>
      build_seg qtr k sg
        = map_option snd (merge_free_blocks_seg (qtr + k) (split_written sg1 qtr k))
      \<and> split_framed sg1 (split_written sg1 qtr k) qtr k)"
proof (intro conjI impI)
  assume h: "delete_free_block ptr st = Some st1 \<and> can_split st1 ptr sz"
  then have d: "delete_free_block ptr st = Some st1" and c: "can_split st1 ptr sz" by simp_all
  note f = can_split_nat[OF c refl refl refl]
  show "build ptr sz st = map_option snd (merge_free_blocks (ptr + sz) (split_written st1 ptr sz))"
    using build_split_steps[of "unat ptr" st st1, OF _ f(1,2) refl f(9,3,4,5)] d
    unfolding split_written_nat[OF c] bind_snd by (simp add: A_unat f(14))
  show "split_framed st1 (split_written st1 ptr sz) ptr sz" by (rule split_framed_written[OF c])
next
  assume h: "delete_free_block_seg qtr sg = Some sg1 \<and> can_split sg1 qtr k"
  then have d: "delete_free_block_seg qtr sg = Some sg1" and c: "can_split sg1 qtr k" by simp_all
  note f = can_split_nat[OF c refl refl refl]
  show "build_seg qtr k sg
          = map_option snd (merge_free_blocks_seg (qtr + k) (split_written sg1 qtr k))"
    using build_seg_split_steps[of "unat qtr" sg sg1, OF _ f(1,2) refl f(9,3,4,5)] d
    unfolding split_written_nat[OF c] bind_snd by (simp add: A_unat f(14))
  show "split_framed sg1 (split_written sg1 qtr k) qtr k" by (rule split_framed_written[OF c])
qed

theorem build_split_writes_four_words_witness:
  "delete_free_block 0x1018 heap6 = Some (heap6\<lparr>free_blks := 0\<rparr>)
   \<and> can_split (heap6\<lparr>free_blks := 0\<rparr>) 0x1018 16
   \<and> build 0x1018 16 heap6 = Some heap6_built
   \<and> split_framed (heap6\<lparr>free_blks := 0\<rparr>)
        (split_written (heap6\<lparr>free_blks := 0\<rparr>) 0x1018 16) 0x1018 16
   \<and> delete_free_block_seg 0x1018 heap6_seg = Some (heap6_seg\<lparr>free_blks_seg := (\<lambda>_. 0)\<rparr>)
   \<and> can_split (heap6_seg\<lparr>free_blks_seg := (\<lambda>_. 0)\<rparr>) 0x1018 16
   \<and> build_seg 0x1018 16 heap6_seg = Some heap6_seg_built
   \<and> split_framed (heap6_seg\<lparr>free_blks_seg := (\<lambda>_. 0)\<rparr>)
        (split_written (heap6_seg\<lparr>free_blks_seg := (\<lambda>_. 0)\<rparr>) 0x1018 16) 0x1018 16"
proof -
  have e: "(0x1018 :: addr) + 16 = 0x1028" by simp
  show ?thesis
    using build_split_writes_four_words[of "0x1018" heap6 "heap6\<lparr>free_blks := 0\<rparr>" 16
        "0x1018" heap6_seg "heap6_seg\<lparr>free_blks_seg := (\<lambda>_. 0)\<rparr>" 16]
    unfolding e merge_split_heap6 merge_split_heap6_seg
    using delete_heap6 delete_heap6_seg can_split_heap6
    by simp
qed

text \<open>
  Claim C6 as stated fails. In \<^verbatim>\<open>heap6\<close> the free block of 48 bytes has its header at
  \<open>0x1014\<close> and its payload at \<open>0x1018\<close>. \<^verbatim>\<open>_build(0x1018, 16)\<close> splits it
  (\<open>48 - 16 > 16\<close>) and returns \<^verbatim>\<open>heap6_built\<close>. The allocated part is the 16 bytes from
  \<open>0x1014\<close>; its last word, at \<open>0x1020\<close> (payload plus \<open>s - D\<close>), held 0 before the
  call and holds \<^verbatim>\<open>PACK(16, 1)\<close>, that is 17, after it: \<^verbatim>\<open>_build\<close> has written a footer
  into the allocated portion.
\<close>

theorem build_writes_footer_counterexample:
  "build 0x1018 16 heap6 = Some heap6_built
   \<and> GET_SIZE heap6 (GET_HEADER 0x1018) = Some 48
   \<and> (48 :: size_t) - 16 > ESIZE
   \<and> GET_HEADER 0x1018 + 16 - WSIZE = 0x1020
   \<and> 0x1018 + 16 - DSIZE = (0x1020 :: addr)
   \<and> READ heap6 0x1020 = Some 0
   \<and> READ heap6_built 0x1020 = Some (PACK 16 1)
   \<and> PACK 16 1 = 17"
proof -
  have b: "build 0x1018 16 heap6 = Some heap6_built"
    apply (simp add: build_def delete_free_block_def merge_free_blocks_def insert_free_block_def
        heap6_def heap6_built_def eval_defs load32_zero)
    apply (simp add: store32_def fun_eq_iff)
    done
  have r: "GET_SIZE heap6 (GET_HEADER 0x1018) = Some 48" "READ heap6 0x1020 = Some 0"
    "READ heap6_built 0x1020 = Some (PACK 16 1)"
    by (simp_all add: heap6_def heap6_built_def eval_defs load32_zero)
  show ?thesis using b r by (simp add: eval_defs)
qed

end
